theory Spec2Isabelle
  imports Main "HOL-Library.Finite_Map"
begin

section \<open>Values exchanged with the outside world\<close>

text \<open>
  The auto-skipper of \<^verbatim>\<open>spotify_skip_recently_played_song.py\<close> decodes JSON bodies with
  \<^verbatim>\<open>r.json()\<close> and then works on the decoded Python values. They are modelled by \<open>json\<close>:
  \<open>JNull\<close> is Python's \<^verbatim>\<open>None\<close>, \<open>JNum\<close> an integer (Python's \<^verbatim>\<open>True\<close> and \<^verbatim>\<open>False\<close> are
  the integers 1 and 0, which is how \<^verbatim>\<open>==\<close>, \<^verbatim>\<open>int()\<close> and truth tests treat them), \<open>JStr\<close> a
  string, \<open>JArr\<close> a list and \<open>JObj\<close> a dict with string keys. With this representation
  Python's \<^verbatim>\<open>==\<close> on decoded values is equality in HOL.

  Scope of the model. Numbers are integral (no floats). A string is a list of code points
  below 256. A timestamp that \<^verbatim>\<open>datetime\<close> cannot hold and a digit string that \<^verbatim>\<open>int()\<close>
  refuses are refused in the model as well; the skip window and the lifetime of a token are
  taken inside the range of \<^verbatim>\<open>timedelta\<close>. \<^verbatim>\<open>print\<close> does not fail. The tray thread
  changes \<^verbatim>\<open>skipping_paused\<close> and \<^verbatim>\<open>temp_pause_track_id\<close> only between two iterations of
  the loop, and a \<open>KeyboardInterrupt\<close> arrives only as the outcome of a request.
\<close>

datatype json =
    JNull
  | JNum int
  | JStr string
  | JArr "json list"
  | JObj "(string, json) fmap"

text \<open>Python's truth test (\<^verbatim>\<open>if x\<close>, \<^verbatim>\<open>not x\<close>, \<^verbatim>\<open>x or y\<close>).\<close>

fun truthy :: "json \<Rightarrow> bool" where
  "truthy JNull = False"
| "truthy (JNum n) = (n \<noteq> 0)"
| "truthy (JStr s) = (s \<noteq> [])"
| "truthy (JArr xs) = (xs \<noteq> [])"
| "truthy (JObj m) = (m \<noteq> fmempty)"

text \<open>
  The exceptions the program can meet. All of them except \<open>KeyboardInterrupt\<close> are
  subclasses of \<^verbatim>\<open>Exception\<close>. \<open>RequestException\<close> is a transport failure of
  \<^verbatim>\<open>requests\<close> (timeout, refused connection, invalid URL); a body that is not JSON makes
  \<^verbatim>\<open>r.json()\<close> raise a \<open>ValueError\<close>. \<open>OverflowError\<close> and \<open>OSError\<close> are what the platform
  raises for a timestamp it cannot convert.
\<close>

datatype exn =
    KeyboardInterrupt
  | RequestException
  | RuntimeError
  | ValueError
  | TypeError
  | AttributeError
  | KeyError
  | IndexError
  | OverflowError
  | OSError

definition is_Exception :: "exn \<Rightarrow> bool" where
  "is_Exception e = (e \<noteq> KeyboardInterrupt)"

text \<open>
  A timestamp is a number of microseconds since the epoch, read in UTC. Python keeps
  timezone-aware and naive \<^verbatim>\<open>datetime\<close> objects apart: subtracting or ordering one of each
  raises \<open>TypeError\<close>.
\<close>

datatype datetime = Aware int | Naive int

definition us_per_second :: int where
  "us_per_second = 1000000"

definition us_per_day :: int where
  "us_per_day = 86400 * us_per_second"

text \<open>
  \<^verbatim>\<open>datetime\<close> holds the years 1 to 9999: the first and the last second, counted from
  the epoch.
\<close>

definition datetime_min_ts :: int where
  "datetime_min_ts = - 62135596800"

definition datetime_max_ts :: int where
  "datetime_max_ts = 253402300799"

text \<open>
  \<^verbatim>\<open>datetime.fromtimestamp(n, tz=timezone.utc)\<close> and \<^verbatim>\<open>datetime.utcfromtimestamp(n)\<close>, for a
  number of seconds that can be converted (see \<open>timestamp_check\<close> below).
\<close>

definition fromtimestamp_utc :: "int \<Rightarrow> datetime" where
  "fromtimestamp_utc n = Aware (n * us_per_second)"

definition utcfromtimestamp :: "int \<Rightarrow> datetime" where
  "utcfromtimestamp n = Naive (n * us_per_second)"

text \<open>\<^verbatim>\<open>a - b\<close> on two datetimes gives a \<^verbatim>\<open>timedelta\<close>, here in microseconds.\<close>

fun dt_sub :: "datetime \<Rightarrow> datetime \<Rightarrow> exn + int" where
  "dt_sub (Aware a) (Aware b) = Inr (a - b)"
| "dt_sub (Naive a) (Naive b) = Inr (a - b)"
| "dt_sub (Aware a) (Naive b) = Inl TypeError"
| "dt_sub (Naive a) (Aware b) = Inl TypeError"

text \<open>\<^verbatim>\<open>a > b\<close> on two datetimes.\<close>

fun dt_gt :: "datetime \<Rightarrow> datetime \<Rightarrow> exn + bool" where
  "dt_gt (Aware a) (Aware b) = Inr (b < a)"
| "dt_gt (Naive a) (Naive b) = Inr (b < a)"
| "dt_gt (Aware a) (Naive b) = Inl TypeError"
| "dt_gt (Naive a) (Aware b) = Inl TypeError"

text \<open>\<^verbatim>\<open>timedelta.days\<close>: a timedelta is normalised with a floor division.\<close>

definition td_days :: "int \<Rightarrow> int" where
  "td_days d = d div us_per_day"

subsection \<open>Strings\<close>

text \<open>The characters \<^verbatim>\<open>str.strip()\<close> removes, and those \<^verbatim>\<open>str.splitlines()\<close> breaks at.\<close>

definition is_space :: "char \<Rightarrow> bool" where
  "is_space c = (c \<in> set [CHR 0x09, CHR 0x0A, CHR 0x0B, CHR 0x0C, CHR 0x0D, CHR 0x1C,
     CHR 0x1D, CHR 0x1E, CHR 0x1F, CHR 0x20, CHR 0x85, CHR 0xA0])"

definition is_linebreak :: "char \<Rightarrow> bool" where
  "is_linebreak c = (c \<in> set [CHR 0x0A, CHR 0x0B, CHR 0x0C, CHR 0x0D, CHR 0x1C, CHR 0x1D,
     CHR 0x1E, CHR 0x85])"

definition py_strip :: "string \<Rightarrow> string" where
  "py_strip s = rev (dropWhile is_space (rev (dropWhile is_space s)))"

text \<open>
  \<^verbatim>\<open>str.splitlines()\<close>: \<open>cur\<close> is the line read so far, reversed, and \<open>cr\<close> says that the
  last character was a carriage return, so that a line feed right after it belongs to the
  same line break. No empty line is reported after the last line break.
\<close>

fun splitlines_from :: "bool \<Rightarrow> string \<Rightarrow> string \<Rightarrow> string list" where
  "splitlines_from cr cur [] = (if cur = [] then [] else [rev cur])"
| "splitlines_from cr cur (c # cs) =
     (if c = CHR 0x0A \<and> cr then splitlines_from False cur cs
      else if is_linebreak c then rev cur # splitlines_from (c = CHR 0x0D) [] cs
      else splitlines_from False (c # cur) cs)"

definition py_splitlines :: "string \<Rightarrow> string list" where
  "py_splitlines s = splitlines_from False [] s"

text \<open>\<^verbatim>\<open>str.lower()\<close> on code points below 256.\<close>

definition lower_char :: "char \<Rightarrow> char" where
  "lower_char c =
     (let n = (of_char c :: nat)
      in if (65 \<le> n \<and> n \<le> 90) \<or> (192 \<le> n \<and> n \<le> 222 \<and> n \<noteq> 215)
         then char_of (n + 32) else c)"

definition py_lower :: "string \<Rightarrow> string" where
  "py_lower s = map lower_char s"

text \<open>
  \<^verbatim>\<open>int(s)\<close> on a string: surrounding white space, an optional sign, then decimal digits
  where a single underscore may stand between two digits. The white space that \<^verbatim>\<open>int()\<close>
  removes is not that of \<^verbatim>\<open>str.strip()\<close>: the separators 0x1C to 0x1F are not part of it.
  A string with more than 4300 digits is refused (the default of
  \<^verbatim>\<open>sys.set_int_max_str_digits\<close>). In \<open>parse_digits\<close>, \<open>prev\<close> says that the last character
  read was a digit.
\<close>

definition is_int_space :: "char \<Rightarrow> bool" where
  "is_int_space c = (c \<in> set [CHR 0x09, CHR 0x0A, CHR 0x0B, CHR 0x0C, CHR 0x0D, CHR 0x20,
     CHR 0x85, CHR 0xA0])"

definition int_strip :: "string \<Rightarrow> string" where
  "int_strip s = rev (dropWhile is_int_space (rev (dropWhile is_int_space s)))"

definition is_digit :: "char \<Rightarrow> bool" where
  "is_digit c = (c \<in> set ''0123456789'')"

definition digit_val :: "char \<Rightarrow> int" where
  "digit_val c = of_char c - 48"

definition max_str_digits :: nat where
  "max_str_digits = 4300"

fun parse_digits :: "bool \<Rightarrow> int \<Rightarrow> string \<Rightarrow> int option" where
  "parse_digits prev acc [] = (if prev then Some acc else None)"
| "parse_digits prev acc (c # cs) =
     (if is_digit c then parse_digits True (10 * acc + digit_val c) cs
      else if c = CHR ''_'' \<and> prev then parse_digits False acc cs
      else None)"

definition int_of_string :: "string \<Rightarrow> int option" where
  "int_of_string s =
     (case int_strip s of
        [] \<Rightarrow> None
      | c # cs \<Rightarrow>
          if max_str_digits < length (filter is_digit (c # cs)) then None
          else if c = CHR ''-'' then map_option uminus (parse_digits False 0 cs)
          else if c = CHR ''+'' then parse_digits False 0 cs
          else parse_digits False 0 (c # cs))"

text \<open>\<^verbatim>\<open>int(x)\<close> on a decoded value.\<close>

fun py_int :: "json \<Rightarrow> exn + int" where
  "py_int (JNum n) = Inr n"
| "py_int (JStr s) = (case int_of_string s of None \<Rightarrow> Inl ValueError | Some n \<Rightarrow> Inr n)"
| "py_int JNull = Inl TypeError"
| "py_int (JArr xs) = Inl TypeError"
| "py_int (JObj m) = Inl TypeError"

subsection \<open>Operations on decoded values\<close>

text \<open>\<^verbatim>\<open>d.get(k, default)\<close>: only a dict has the method.\<close>

fun py_get :: "json \<Rightarrow> string \<Rightarrow> json \<Rightarrow> exn + json" where
  "py_get (JObj m) k d = Inr (case fmlookup m k of None \<Rightarrow> d | Some v \<Rightarrow> v)"
| "py_get JNull k d = Inl AttributeError"
| "py_get (JNum n) k d = Inl AttributeError"
| "py_get (JStr s) k d = Inl AttributeError"
| "py_get (JArr xs) k d = Inl AttributeError"

text \<open>\<^verbatim>\<open>x[0]\<close>. A dict decoded from JSON has string keys only, so 0 is never a key.\<close>

fun py_first :: "json \<Rightarrow> exn + json" where
  "py_first (JArr xs) = (case xs of [] \<Rightarrow> Inl IndexError | x # _ \<Rightarrow> Inr x)"
| "py_first (JStr s) = (case s of [] \<Rightarrow> Inl IndexError | c # _ \<Rightarrow> Inr (JStr [c]))"
| "py_first (JObj m) = Inl KeyError"
| "py_first JNull = Inl TypeError"
| "py_first (JNum n) = Inl TypeError"

text \<open>\<^verbatim>\<open>x[k]\<close> with a string key.\<close>

fun py_item :: "json \<Rightarrow> string \<Rightarrow> exn + json" where
  "py_item (JObj m) k = (case fmlookup m k of None \<Rightarrow> Inl KeyError | Some v \<Rightarrow> Inr v)"
| "py_item JNull k = Inl TypeError"
| "py_item (JNum n) k = Inl TypeError"
| "py_item (JStr s) k = Inl TypeError"
| "py_item (JArr xs) k = Inl TypeError"

fun starts_with :: "string \<Rightarrow> string \<Rightarrow> bool" where
  "starts_with [] s = True"
| "starts_with (a # p) [] = False"
| "starts_with (a # p) (b # s) = (a = b \<and> starts_with p s)"

fun has_substring :: "string \<Rightarrow> string \<Rightarrow> bool" where
  "has_substring p [] = (p = [])"
| "has_substring p (c # s) = (starts_with p (c # s) \<or> has_substring p s)"

text \<open>\<^verbatim>\<open>k in x\<close> with a string \<open>k\<close>: a key of a dict, an element of a list, a substring.\<close>

fun py_in :: "string \<Rightarrow> json \<Rightarrow> exn + bool" where
  "py_in k (JObj m) = Inr (fmlookup m k \<noteq> None)"
| "py_in k (JArr xs) = Inr (JStr k \<in> set xs)"
| "py_in k (JStr s) = Inr (has_substring k s)"
| "py_in k JNull = Inl TypeError"
| "py_in k (JNum n) = Inl TypeError"

text \<open>\<^verbatim>\<open>max(xs)\<close> and \<^verbatim>\<open>min(xs)\<close> raise \<open>ValueError\<close> on an empty list.\<close>

fun py_max :: "int list \<Rightarrow> exn + int" where
  "py_max [] = Inl ValueError"
| "py_max (x # xs) = Inr (fold max xs x)"

fun py_min :: "int list \<Rightarrow> exn + int" where
  "py_min [] = Inl ValueError"
| "py_min (x # xs) = Inr (fold min xs x)"

section \<open>Settings, requests, events and the program state\<close>

text \<open>The tunables read from \<^verbatim>\<open>config.ini\<close> (the credentials play no role in the model).\<close>

record config =
  skip_window_days :: int
  poll_interval_seconds :: int
  enable_restart_pattern :: bool
  restart_pattern_song_count :: int
  restart_pattern_day_diff :: int
  dummy_playlist_id :: string
  remote_control_url :: string

definition default_config :: config where
  "default_config = \<lparr> skip_window_days = 60, poll_interval_seconds = 120,
     enable_restart_pattern = True, restart_pattern_song_count = 5,
     restart_pattern_day_diff = 2, dummy_playlist_id = ''37i9dQZF1DX0XUsuxWHRQd'',
     remote_control_url = ''ON'' \<rparr>"

text \<open>Every HTTP request the program sends, with the part of its payload that varies.\<close>

datatype request =
    PostToken
  | GetCurrentlyPlaying
  | PostNext
  | GetPlayer
  | PutPause
  | PutPlay json
  | PutShuffle
  | GetTrackScrobbles json json
  | GetRemote string

record response =
  status_code :: int
  resp_text :: string
  resp_json :: "json option"

text \<open>The lines the program prints, one constructor per \<^verbatim>\<open>print\<close> of the core.\<close>

datatype msg =
    MsgTokenRefreshed
  | MsgUnexpectedStatus int
  | MsgSkipFailed int
  | MsgPauseFailed int
  | MsgNoContextStatus int
  | MsgNoContext
  | MsgRestarting json
  | MsgRestarted
  | MsgRestartFailed exn
  | MsgNoRemoteUrl
  | MsgRemoteFailed exn
  | MsgLastFmNetworkError exn
  | MsgLastFmStatus int
  | MsgStart
  | MsgManualPause
  | MsgRemoteDisabled
  | MsgNothingPlaying
  | MsgSameSong json
  | MsgClearTempPause
  | MsgCurrentlyPlaying json json
  | MsgTempPaused
  | MsgLastScrobble datetime int
  | MsgSkipping int
  | MsgPattern
  | MsgCheckingNext
  | MsgOlder
  | MsgNoScrobble
  | MsgStopped
  | MsgUnexpected exn

datatype event = Http request | Sleep int | Print msg

text \<open>
  The outside world answers the \<open>k\<close>-th interaction of the program: \<open>http\<close> with the
  response to a request or the exception the call raises, \<open>clock\<close> with the reading of
  \<^verbatim>\<open>datetime.now(timezone.utc)\<close> in microseconds. \<open>timestamp_error\<close> is the platform
  under Python: the exception its conversion of a number of seconds raises, if any, before
  \<^verbatim>\<open>datetime\<close> checks the year (\<open>OverflowError\<close> beyond \<^verbatim>\<open>time_t\<close>, \<open>OSError\<close> from
  \<^verbatim>\<open>gmtime\<close>; on Windows every negative number). Nothing is assumed about the three.
\<close>

record world =
  http :: "nat \<Rightarrow> request \<Rightarrow> exn + response"
  clock :: "nat \<Rightarrow> int"
  timestamp_error :: "int \<Rightarrow> exn option"

text \<open>
  Whether \<^verbatim>\<open>fromtimestamp\<close> and \<^verbatim>\<open>utcfromtimestamp\<close> refuse a number of seconds, and with
  which exception: the platform first, then \<open>ValueError\<close> for a year outside 1 to 9999.
\<close>

definition timestamp_check :: "world \<Rightarrow> int \<Rightarrow> exn option" where
  "timestamp_check w n =
     (case timestamp_error w n of
        Some e \<Rightarrow> Some e
      | None \<Rightarrow> if n < datetime_min_ts \<or> datetime_max_ts < n then Some ValueError else None)"

text \<open>
  The module's global variables, the loop's local \<^verbatim>\<open>recent_skip_days\<close>, the number of
  interactions so far and the events emitted so far.
\<close>

record sys =
  spotify_token :: json
  token_expires_at :: int
  skipping_paused :: bool
  temp_pause_track_id :: json
  last_checked_track_id :: json
  last_checked_timestamp :: "int option"
  recent_skip_days :: "int list"
  tick :: nat
  trace :: "event list"

subsection \<open>Statements: state passing with exceptions\<close>

text \<open>
  A statement runs on a state and gives the value it returns or the exception it raises,
  and the state it leaves. The assignments made before a raise stay.
\<close>

type_synonym 'a prog = "sys \<Rightarrow> (exn + 'a) \<times> sys"

definition ret :: "'a \<Rightarrow> 'a prog" where
  "ret x s = (Inr x, s)"

definition raise_exn :: "exn \<Rightarrow> 'a prog" where
  "raise_exn e s = (Inl e, s)"

definition bnd :: "'a prog \<Rightarrow> ('a \<Rightarrow> 'b prog) \<Rightarrow> 'b prog" where
  "bnd m f s = (case m s of (Inl e, s') \<Rightarrow> (Inl e, s') | (Inr x, s') \<Rightarrow> f x s')"

definition andthen :: "'a prog \<Rightarrow> 'b prog \<Rightarrow> 'b prog" where
  "andthen m n = bnd m (\<lambda>_. n)"

definition lift :: "exn + 'a \<Rightarrow> 'a prog" where
  "lift r s = (r, s)"

definition get_sys :: "sys prog" where
  "get_sys s = (Inr s, s)"

definition modify :: "(sys \<Rightarrow> sys) \<Rightarrow> unit prog" where
  "modify f s = (Inr (), f s)"

text \<open>
  \<^verbatim>\<open>try: m except <classes>: h\<close>: the handler runs when \<open>m\<close> raises an exception of a
  class that \<open>catches\<close> accepts; any other exception goes on.
\<close>

definition try_except :: "'a prog \<Rightarrow> (exn \<Rightarrow> bool) \<Rightarrow> (exn \<Rightarrow> 'a prog) \<Rightarrow> 'a prog" where
  "try_except m catches h s =
     (case m s of
        (Inl e, s') \<Rightarrow> if catches e then h e s' else (Inl e, s')
      | (Inr x, s') \<Rightarrow> (Inr x, s'))"

definition emit :: "event \<Rightarrow> unit prog" where
  "emit e = modify (\<lambda>s. s\<lparr>trace := trace s @ [e]\<rparr>)"

definition print_msg :: "msg \<Rightarrow> unit prog" where
  "print_msg m = emit (Print m)"

text \<open>\<^verbatim>\<open>time.sleep(n)\<close> raises \<open>ValueError\<close> on a negative length.\<close>

definition sleep :: "int \<Rightarrow> unit prog" where
  "sleep n = (if n < 0 then raise_exn ValueError else emit (Sleep n))"

text \<open>An HTTP call of \<^verbatim>\<open>requests\<close>: the request is sent, the world answers.\<close>

definition send :: "world \<Rightarrow> request \<Rightarrow> response prog" where
  "send w rq s =
     (http w (tick s) rq, s\<lparr>tick := Suc (tick s), trace := trace s @ [Http rq]\<rparr>)"

definition now_utc :: "world \<Rightarrow> int prog" where
  "now_utc w s = (Inr (clock w (tick s)), s\<lparr>tick := Suc (tick s)\<rparr>)"

text \<open>\<^verbatim>\<open>r.json()\<close>, and \<^verbatim>\<open>r.json() or {}\<close>.\<close>

definition json_of :: "response \<Rightarrow> exn + json" where
  "json_of r = (case resp_json r of None \<Rightarrow> Inl ValueError | Some j \<Rightarrow> Inr j)"

definition or_empty :: "json \<Rightarrow> json" where
  "or_empty j = (if truthy j then j else JObj fmempty)"

section \<open>Token Manager\<close>

text \<open>
  \<^verbatim>\<open>refresh_access_token\<close>: the token is stored before \<^verbatim>\<open>expires_in\<close> is read, so a
  response whose \<^verbatim>\<open>expires_in\<close> cannot be converted leaves the new token with the old
  expiry.
\<close>

definition refresh_access_token :: "world \<Rightarrow> unit prog" where
  "refresh_access_token w =
     bnd (send w PostToken) (\<lambda>r.
       if status_code r \<noteq> 200 then raise_exn RuntimeError
       else
         bnd (lift (json_of r)) (\<lambda>data.
         bnd (lift (py_in ''access_token'' data)) (\<lambda>present.
           if \<not> present then raise_exn RuntimeError
           else
             bnd (lift (py_item data ''access_token'')) (\<lambda>tok.
             andthen (modify (\<lambda>s. s\<lparr>spotify_token := tok\<rparr>)) (
             bnd (lift (py_get data ''expires_in'' (JNum 3600))) (\<lambda>e.
             bnd (lift (py_int e)) (\<lambda>expires_in.
             bnd (now_utc w) (\<lambda>now.
             andthen (modify (\<lambda>s. s\<lparr>token_expires_at :=
                 now + max 0 (expires_in - 100) * us_per_second\<rparr>)) (
             print_msg MsgTokenRefreshed)))))))))"

definition get_spotify_token :: "world \<Rightarrow> json prog" where
  "get_spotify_token w =
     bnd get_sys (\<lambda>s.
       if spotify_token s = JNull
       then andthen (refresh_access_token w) (bnd get_sys (\<lambda>s'. ret (spotify_token s')))
       else
         bnd (now_utc w) (\<lambda>now.
           if token_expires_at s \<le> now
           then andthen (refresh_access_token w) (bnd get_sys (\<lambda>s'. ret (spotify_token s')))
           else ret (spotify_token s)))"

definition spotify_get :: "world \<Rightarrow> request \<Rightarrow> response prog" where
  "spotify_get w rq = andthen (get_spotify_token w) (send w rq)"

definition spotify_post :: "world \<Rightarrow> request \<Rightarrow> response prog" where
  "spotify_post w rq = andthen (get_spotify_token w) (send w rq)"

definition spotify_put :: "world \<Rightarrow> request \<Rightarrow> response prog" where
  "spotify_put w rq = andthen (get_spotify_token w) (send w rq)"

section \<open>Playback Client\<close>

record track =
  track_id :: json
  track_name :: json
  track_artist :: json

text \<open>\<^verbatim>\<open>artists[0]["name"] if artists else None\<close>.\<close>

definition first_artist_name :: "json \<Rightarrow> exn + json" where
  "first_artist_name artists =
     (if truthy artists
      then (case py_first artists of Inl e \<Rightarrow> Inl e | Inr a \<Rightarrow> py_item a ''name'')
      else Inr JNull)"

definition get_current_track :: "world \<Rightarrow> track option prog" where
  "get_current_track w =
     bnd (spotify_get w GetCurrentlyPlaying) (\<lambda>r.
       if status_code r = 204 then ret None
       else if status_code r \<noteq> 200
       then andthen (print_msg (MsgUnexpectedStatus (status_code r))) (ret None)
       else
         bnd (lift (json_of r)) (\<lambda>j.
         bnd (lift (py_get (or_empty j) ''item'' JNull)) (\<lambda>item.
           if \<not> truthy item then ret None
           else
             bnd (lift (py_get item ''artists'' JNull)) (\<lambda>a.
             bnd (lift (first_artist_name (if truthy a then a else JArr []))) (\<lambda>artist_name.
             bnd (lift (py_get item ''name'' JNull)) (\<lambda>track_name.
             bnd (lift (py_get item ''id'' JNull)) (\<lambda>tid.
               if truthy tid \<and> truthy artist_name \<and> truthy track_name
               then ret (Some \<lparr> track_id = tid, track_name = track_name,
                                  track_artist = artist_name \<rparr>)
               else ret None)))))))"

definition skip_current_track :: "world \<Rightarrow> unit prog" where
  "skip_current_track w =
     bnd (spotify_post w PostNext) (\<lambda>r.
       if status_code r \<notin> {200, 202, 204}
       then print_msg (MsgSkipFailed (status_code r))
       else ret ())"

definition is_spotify_paused :: "world \<Rightarrow> bool prog" where
  "is_spotify_paused w =
     bnd (spotify_get w GetPlayer) (\<lambda>r.
       if status_code r \<noteq> 200 then ret False
       else
         bnd (lift (json_of r)) (\<lambda>j.
         bnd (lift (py_get (or_empty j) ''is_playing'' (JNum 1))) (\<lambda>playing.
           ret (\<not> truthy playing))))"

definition pause_spotify_playback :: "world \<Rightarrow> unit prog" where
  "pause_spotify_playback w =
     andthen (get_spotify_token w) (
     bnd (send w PutPause) (\<lambda>r.
       if status_code r \<notin> {200, 202, 204}
       then print_msg (MsgPauseFailed (status_code r))
       else ret ()))"

definition restart_playlist :: "config \<Rightarrow> world \<Rightarrow> unit prog" where
  "restart_playlist cfg w =
     try_except
       (bnd (spotify_get w GetCurrentlyPlaying) (\<lambda>r.
          if status_code r \<noteq> 200 then print_msg (MsgNoContextStatus (status_code r))
          else
            bnd (lift (json_of r)) (\<lambda>data.
            bnd (lift (py_get data ''context'' (JObj fmempty))) (\<lambda>context.
            bnd (lift (py_get context ''uri'' JNull)) (\<lambda>context_uri.
              if \<not> truthy context_uri then print_msg MsgNoContext
              else
                andthen (print_msg (MsgRestarting context_uri)) (
                andthen (spotify_put w
                   (PutPlay (JStr (''spotify:playlist:'' @ dummy_playlist_id cfg)))) (
                andthen (sleep 1) (
                andthen (spotify_put w PutShuffle) (
                andthen (sleep 1) (
                andthen (spotify_put w (PutPlay context_uri)) (
                print_msg MsgRestarted)))))))))))
       is_Exception
       (\<lambda>e. print_msg (MsgRestartFailed e))"

section \<open>Remote control gate\<close>

text \<open>\<^verbatim>\<open>r.text.strip().splitlines()[0].strip().lower()\<close>.\<close>

definition first_line :: "string \<Rightarrow> exn + string" where
  "first_line t =
     (case py_splitlines (py_strip t) of
        [] \<Rightarrow> Inl IndexError
      | l # _ \<Rightarrow> Inr (py_lower (py_strip l)))"

definition is_skipping_enabled :: "config \<Rightarrow> world \<Rightarrow> bool prog" where
  "is_skipping_enabled cfg w =
     (if remote_control_url cfg = []
      then andthen (print_msg MsgNoRemoteUrl) (ret True)
      else
        try_except
          (bnd (send w (GetRemote (remote_control_url cfg))) (\<lambda>r.
           bnd (lift (first_line (resp_text r))) (\<lambda>l.
             ret (l = ''on''))))
          is_Exception
          (\<lambda>e. andthen (print_msg (MsgRemoteFailed e)) (ret True)))"

section \<open>History Client\<close>

text \<open>
  The conversion of \<^verbatim>\<open>uts\<close> inside \<^verbatim>\<open>try: ... except ValueError: return None\<close>, which
  covers \<^verbatim>\<open>int(uts)\<close> and the construction of the datetime; the argument \<open>mk\<close> is the
  constructor the branch uses.
\<close>

definition convert_uts ::
  "world \<Rightarrow> (int \<Rightarrow> datetime) \<Rightarrow> json \<Rightarrow> exn + datetime option" where
  "convert_uts w mk uts =
     (case py_int uts of
        Inl e \<Rightarrow> if e = ValueError then Inr None else Inl e
      | Inr n \<Rightarrow>
          (case timestamp_check w n of
             Some e \<Rightarrow> if e = ValueError then Inr None else Inl e
           | None \<Rightarrow> Inr (Some (mk n))))"

definition get_last_play_date :: "world \<Rightarrow> json \<Rightarrow> json \<Rightarrow> datetime option prog" where
  "get_last_play_date w artist title =
     bnd (try_except
            (bnd (send w (GetTrackScrobbles artist title)) (\<lambda>r. ret (Some r)))
            (\<lambda>e. e = RequestException)
            (\<lambda>e. andthen (print_msg (MsgLastFmNetworkError e)) (ret None))) (\<lambda>ro.
     case ro of
       None \<Rightarrow> ret None
     | Some r \<Rightarrow>
         if status_code r \<noteq> 200
         then andthen (print_msg (MsgLastFmStatus (status_code r))) (ret None)
         else
           bnd (lift (json_of r)) (\<lambda>j.
           bnd (lift (py_get (or_empty j) ''trackscrobbles'' (JObj fmempty))) (\<lambda>ts.
           bnd (lift (py_get ts ''track'' JNull)) (\<lambda>scrobbles.
             if \<not> truthy scrobbles then ret None
             else
               (case scrobbles of
                  JArr xs \<Rightarrow>
                    bnd (lift (py_first scrobbles)) (\<lambda>latest.
                    bnd (lift (py_get latest ''date'' (JObj fmempty))) (\<lambda>date_obj.
                    bnd (lift (py_get date_obj ''uts'' JNull)) (\<lambda>uts.
                      if truthy uts then lift (convert_uts w fromtimestamp_utc uts)
                      else ret None)))
                | JObj m \<Rightarrow>
                    bnd (lift (py_get scrobbles ''date'' (JObj fmempty))) (\<lambda>date_obj.
                    bnd (lift (py_get date_obj ''uts'' JNull)) (\<lambda>uts.
                      if truthy uts then lift (convert_uts w utcfromtimestamp uts)
                      else ret None))
                | _ \<Rightarrow> ret None)))))"

section \<open>Pattern Detector\<close>

text \<open>
  The ledger \<^verbatim>\<open>recent_skip_days\<close> of the loop: \<^verbatim>\<open>append\<close>, then \<^verbatim>\<open>pop(0)\<close> when it is
  longer than the sample size.
\<close>

definition record_skip :: "config \<Rightarrow> int \<Rightarrow> int list \<Rightarrow> int list" where
  "record_skip cfg days_since ledger =
     (let l = ledger @ [days_since]
      in if restart_pattern_song_count cfg < int (length l) then tl l else l)"

text \<open>
  The condition of the pattern branch; \<^verbatim>\<open>and\<close> evaluates \<^verbatim>\<open>max\<close> and \<^verbatim>\<open>min\<close> only when
  the length is the sample size.
\<close>

definition is_repeating :: "config \<Rightarrow> int list \<Rightarrow> exn + bool" where
  "is_repeating cfg ledger =
     (if int (length ledger) = restart_pattern_song_count cfg
      then (case py_max ledger of
              Inl e \<Rightarrow> Inl e
            | Inr mx \<Rightarrow>
                (case py_min ledger of
                   Inl e \<Rightarrow> Inl e
                 | Inr mn \<Rightarrow> Inr (mx - mn \<le> restart_pattern_day_diff cfg)))
      else Inr False)"

text \<open>Lines 637 to 648 of the loop, run when \<^verbatim>\<open>ENABLE_RESTART_PATTERN\<close> is set.\<close>

definition track_pattern :: "config \<Rightarrow> world \<Rightarrow> int \<Rightarrow> unit prog" where
  "track_pattern cfg w days_since =
     andthen (modify (\<lambda>s. s\<lparr>recent_skip_days :=
                 record_skip cfg days_since (recent_skip_days s)\<rparr>)) (
     bnd get_sys (\<lambda>s.
     bnd (lift (is_repeating cfg (recent_skip_days s))) (\<lambda>fires.
       if fires
       then andthen (print_msg MsgPattern) (
            andthen (restart_playlist cfg w) (
            modify (\<lambda>s. s\<lparr>recent_skip_days := []\<rparr>)))
       else ret ())))"

section \<open>Decision Loop\<close>

text \<open>
  How the body of the \<^verbatim>\<open>try\<close> ends: with \<^verbatim>\<open>continue\<close>, which starts the next iteration
  at once, or by reaching its end, after which the loop runs its standard pause.
\<close>

datatype flow = Next_iteration | End_of_body

text \<open>The skip branch, lines 628 to 653.\<close>

definition skip_branch :: "config \<Rightarrow> world \<Rightarrow> int \<Rightarrow> flow prog" where
  "skip_branch cfg w days_since =
     andthen (print_msg (MsgSkipping days_since)) (
     bnd (is_spotify_paused w) (\<lambda>was_paused.
     andthen (skip_current_track w) (
     andthen (if was_paused then andthen (sleep 1) (pause_spotify_playback w) else ret ()) (
     andthen (if enable_restart_pattern cfg then track_pattern cfg w days_since else ret ()) (
     andthen (sleep 5) (
     andthen (print_msg MsgCheckingNext) (
     ret Next_iteration)))))))"

text \<open>The decision on the result of the history lookup, lines 619 to 657.\<close>

definition decide :: "config \<Rightarrow> world \<Rightarrow> datetime option \<Rightarrow> flow prog" where
  "decide cfg w last_played =
     (case last_played of
        None \<Rightarrow> andthen (print_msg MsgNoScrobble) (ret End_of_body)
      | Some lp \<Rightarrow>
          bnd (now_utc w) (\<lambda>now1.
          bnd (lift (dt_sub (Aware now1) lp)) (\<lambda>delta.
          andthen (print_msg (MsgLastScrobble lp (td_days delta))) (
          bnd (now_utc w) (\<lambda>now2.
          bnd (lift (dt_gt lp (Aware (now2 - skip_window_days cfg * us_per_day)))) (\<lambda>recent.
            if recent then skip_branch cfg w (td_days delta)
            else andthen (print_msg MsgOlder) (ret End_of_body)))))))"

text \<open>History lookup and decision for a new track, lines 617 to 657.\<close>

definition evaluate :: "config \<Rightarrow> world \<Rightarrow> track \<Rightarrow> flow prog" where
  "evaluate cfg w t =
     bnd (get_last_play_date w (track_artist t) (track_name t)) (\<lambda>last_played.
       decide cfg w last_played)"

text \<open>
  A new track is recorded as the last one observed, and a temporary pause mark set for
  another track is cleared: lines 601 to 609.
\<close>

definition note_new_track :: "world \<Rightarrow> track \<Rightarrow> unit prog" where
  "note_new_track w t =
     andthen (modify (\<lambda>s. s\<lparr>last_checked_track_id := track_id t\<rparr>)) (
     bnd (now_utc w) (\<lambda>now.
     andthen (modify (\<lambda>s. s\<lparr>last_checked_timestamp := Some now\<rparr>)) (
     andthen (bnd get_sys (\<lambda>s.
                if truthy (temp_pause_track_id s) \<and> temp_pause_track_id s \<noteq> track_id t
                then andthen (print_msg MsgClearTempPause) (
                     modify (\<lambda>s. s\<lparr>temp_pause_track_id := JNull\<rparr>))
                else ret ())) (
     print_msg (MsgCurrentlyPlaying (track_artist t) (track_name t))))))"

text \<open>What the loop does with a valid track, lines 594 to 657.\<close>

definition check_track :: "config \<Rightarrow> world \<Rightarrow> track \<Rightarrow> flow prog" where
  "check_track cfg w t =
     bnd get_sys (\<lambda>s.
       if track_id t = last_checked_track_id s
       then andthen (print_msg (MsgSameSong (track_name t))) (
            andthen (sleep (poll_interval_seconds cfg)) (ret Next_iteration))
       else
         andthen (note_new_track w t) (
         bnd get_sys (\<lambda>s.
           if temp_pause_track_id s = track_id t
           then andthen (print_msg MsgTempPaused) (
                andthen (sleep (poll_interval_seconds cfg)) (ret Next_iteration))
           else evaluate cfg w t)))"

text \<open>The body of the \<^verbatim>\<open>try\<close>, lines 569 to 657.\<close>

definition loop_body :: "config \<Rightarrow> world \<Rightarrow> flow prog" where
  "loop_body cfg w =
     bnd get_sys (\<lambda>s.
       if skipping_paused s
       then andthen (print_msg MsgManualPause) (
            andthen (sleep (poll_interval_seconds cfg)) (ret Next_iteration))
       else
         bnd (is_skipping_enabled cfg w) (\<lambda>enabled.
           if \<not> enabled
           then andthen (print_msg MsgRemoteDisabled) (
                andthen (sleep (poll_interval_seconds cfg)) (ret Next_iteration))
           else
             bnd (get_current_track w) (\<lambda>tr.
               case tr of
                 None \<Rightarrow>
                   andthen (print_msg MsgNothingPlaying) (
                   andthen (sleep (poll_interval_seconds cfg)) (ret Next_iteration))
               | Some t \<Rightarrow>
                   if \<not> truthy (track_artist t) \<or> \<not> truthy (track_id t)
                   then andthen (print_msg MsgNothingPlaying) (
                        andthen (sleep (poll_interval_seconds cfg)) (ret Next_iteration))
                   else if \<not> truthy (track_artist t) \<or> \<not> truthy (track_id t)
                   then andthen (sleep (poll_interval_seconds cfg)) (ret Next_iteration)
                   else check_track cfg w t)))"

text \<open>
  One iteration of \<^verbatim>\<open>while True\<close>, lines 568 to 670. The value is \<open>True\<close> when the loop
  goes on and \<open>False\<close> after \<^verbatim>\<open>break\<close>; an exception here leaves \<^verbatim>\<open>main_loop\<close>.
  \<^verbatim>\<open>continue\<close> skips the standard pause of line 670; the handler of \<^verbatim>\<open>Exception\<close> does not.
\<close>

definition iteration :: "config \<Rightarrow> world \<Rightarrow> bool prog" where
  "iteration cfg w s =
     (case loop_body cfg w s of
        (Inr Next_iteration, s') \<Rightarrow> ret True s'
      | (Inr End_of_body, s') \<Rightarrow>
          andthen (sleep (poll_interval_seconds cfg)) (ret True) s'
      | (Inl e, s') \<Rightarrow>
          if e = KeyboardInterrupt
          then andthen (print_msg MsgStopped) (ret False) s'
          else
            andthen (print_msg (MsgUnexpected e)) (
            andthen (sleep (poll_interval_seconds cfg)) (
            andthen (sleep (poll_interval_seconds cfg)) (ret True))) s')"

text \<open>
  The loop never ends by itself, so it is run for a number of iterations: the value is
  \<open>True\<close> when the loop is still running after them.
\<close>

fun iterations :: "nat \<Rightarrow> config \<Rightarrow> world \<Rightarrow> bool prog" where
  "iterations 0 cfg w = ret True"
| "iterations (Suc n) cfg w =
     bnd (iteration cfg w) (\<lambda>go. if go then iterations n cfg w else ret False)"

definition main_loop :: "nat \<Rightarrow> config \<Rightarrow> world \<Rightarrow> bool prog" where
  "main_loop n cfg w =
     andthen (modify (\<lambda>s. s\<lparr>recent_skip_days := []\<rparr>)) (
     andthen (print_msg MsgStart) (
     iterations n cfg w))"

text \<open>The state when the module has been loaded at clock reading \<open>t0\<close>.\<close>

definition initial_sys :: "int \<Rightarrow> sys" where
  "initial_sys t0 = \<lparr> spotify_token = JNull, token_expires_at = t0, skipping_paused = False,
     temp_pause_track_id = JNull, last_checked_track_id = JNull,
     last_checked_timestamp = None, recent_skip_days = [], tick = 0, trace = [] \<rparr>"

section \<open>Sample answers of the outside world\<close>

definition response_with :: "int \<Rightarrow> json \<Rightarrow> response" where
  "response_with code j = \<lparr> status_code = code, resp_text = [], resp_json = Some j \<rparr>"

definition reply :: "int \<Rightarrow> json \<Rightarrow> exn + response" where
  "reply code j = Inr (response_with code j)"

definition text_reply :: "string \<Rightarrow> exn + response" where
  "text_reply t = Inr \<lparr> status_code = 200, resp_text = t, resp_json = None \<rparr>"

definition token_reply :: "exn + response" where
  "token_reply = reply 200 (JObj (fmap_of_list
     [(''access_token'', JStr ''tok''), (''expires_in'', JNum 3600)]))"

definition playing_reply :: "exn + response" where
  "playing_reply = reply 200 (JObj (fmap_of_list
     [(''item'', JObj (fmap_of_list
        [(''id'', JStr ''t1''), (''name'', JStr ''Song''),
         (''artists'', JArr [JObj (fmap_of_list [(''name'', JStr ''Band'')])])]))]))"

definition player_reply :: "bool \<Rightarrow> exn + response" where
  "player_reply playing = reply 200 (JObj (fmap_of_list
     [(''is_playing'', JNum (if playing then 1 else 0))]))"

text \<open>The two shapes in which the history service delivers the latest scrobble.\<close>

definition scrobble_record :: "json \<Rightarrow> json" where
  "scrobble_record uts = JObj (fmap_of_list
     [(''date'', JObj (fmap_of_list [(''uts'', uts)]))])"

definition scrobble_list_json :: "json \<Rightarrow> json" where
  "scrobble_list_json uts = JObj (fmap_of_list
     [(''trackscrobbles'', JObj (fmap_of_list [(''track'', JArr [scrobble_record uts])]))])"

definition scrobble_object_json :: "json \<Rightarrow> json" where
  "scrobble_object_json uts = JObj (fmap_of_list
     [(''trackscrobbles'', JObj (fmap_of_list [(''track'', scrobble_record uts)]))])"

definition scrobble_list_reply :: "json \<Rightarrow> exn + response" where
  "scrobble_list_reply uts = reply 200 (scrobble_list_json uts)"

definition scrobble_object_reply :: "json \<Rightarrow> exn + response" where
  "scrobble_object_reply uts = reply 200 (scrobble_object_json uts)"

definition no_scrobble_reply :: "exn + response" where
  "no_scrobble_reply = reply 200 (JObj (fmap_of_list
     [(''trackscrobbles'', JObj (fmap_of_list [(''track'', JArr [])]))]))"

text \<open>
  A world in which the remote gate says \<open>on\<close>, the token exchange succeeds, the track
  \<open>t1\<close> is playing, the history service answers \<open>history\<close>, the player reports \<open>playing\<close>,
  every command is accepted, and the clock stands at 1700000000 seconds.
\<close>

definition sample_now :: int where
  "sample_now = 1700000000 * us_per_second"

fun sample_http :: "(exn + response) \<Rightarrow> bool \<Rightarrow> request \<Rightarrow> exn + response" where
  "sample_http history playing PostToken = token_reply"
| "sample_http history playing GetCurrentlyPlaying = playing_reply"
| "sample_http history playing GetPlayer = player_reply playing"
| "sample_http history playing (GetTrackScrobbles a t) = history"
| "sample_http history playing (GetRemote u) = text_reply ''on''"
| "sample_http history playing PostNext = reply 204 JNull"
| "sample_http history playing PutPause = reply 204 JNull"
| "sample_http history playing (PutPlay c) = reply 204 JNull"
| "sample_http history playing PutShuffle = reply 204 JNull"

text \<open>The platform of the samples: 64-bit \<^verbatim>\<open>time_t\<close>, and \<^verbatim>\<open>gmtime\<close> of the GNU C library.\<close>

definition sample_platform :: "int \<Rightarrow> exn option" where
  "sample_platform n =
     (if n < - (2 ^ 63) \<or> 2 ^ 63 \<le> n then Some OverflowError
      else if n < - 67768040609740800 \<or> 67768036191676799 < n then Some OSError
      else None)"

definition sample_world :: "(exn + response) \<Rightarrow> bool \<Rightarrow> world" where
  "sample_world history playing =
     \<lparr> http = (\<lambda>k. sample_http history playing), clock = (\<lambda>k. sample_now),
       timestamp_error = sample_platform \<rparr>"

text \<open>A world without network: every request fails in transport.\<close>

definition offline_world :: world where
  "offline_world = \<lparr> http = (\<lambda>k rq. Inl RequestException), clock = (\<lambda>k. sample_now),
     timestamp_error = sample_platform \<rparr>"

text \<open>The events a statement adds to the trace.\<close>

definition new_events :: "sys \<Rightarrow> sys \<Rightarrow> event list" where
  "new_events s s' = drop (length (trace s)) (trace s')"

text \<open>A state in which a token is cached until shortly after the sample clock reading.\<close>

definition cached_sys :: sys where
  "cached_sys = (initial_sys 0)\<lparr>spotify_token := JStr ''tok'',
     token_expires_at := sample_now + 5\<rparr>"

text \<open>\<^verbatim>\<open>str.rstrip()\<close>, the right half of \<open>py_strip\<close>.\<close>

definition rstrip :: "string \<Rightarrow> string" where
  "rstrip s = rev (dropWhile is_space (rev s))"

text \<open>Settings with a control URL, and a world that answers every request with \<open>a\<close>.\<close>

definition sample_config :: config where
  "sample_config = default_config\<lparr>remote_control_url := ''https://example.org/remote_control.txt''\<rparr>"

definition gate_world :: "(exn + response) \<Rightarrow> world" where
  "gate_world a = \<lparr> http = (\<lambda>k rq. a), clock = (\<lambda>k. sample_now),
     timestamp_error = sample_platform \<rparr>"

text \<open>The track of \<open>playing_reply\<close>, and an answer whose first artist has no name.\<close>

definition sample_track :: track where
  "sample_track = \<lparr> track_id = JStr ''t1'', track_name = JStr ''Song'',
     track_artist = JStr ''Band'' \<rparr>"

definition nameless_artist_reply :: "exn + response" where
  "nameless_artist_reply = reply 200 (JObj (fmap_of_list
     [(''item'', JObj (fmap_of_list
        [(''id'', JStr ''t1''), (''name'', JStr ''Song''),
         (''artists'', JArr [JObj fmempty])]))]))"

text \<open>
  The states an iteration goes through in \<open>sample_world\<close> when it starts from a state
  \<open>s\<close> with a fresh trace and a cached token: after the remote gate, after the track has
  been observed, after the new track has been noted, and after the history lookup.
\<close>

definition after_gate :: "sys \<Rightarrow> sys" where
  "after_gate s = s\<lparr>tick := 1,
     trace := [Http (GetRemote (remote_control_url sample_config))]\<rparr>"

definition after_observe :: "sys \<Rightarrow> sys" where
  "after_observe s = s\<lparr>tick := 3,
     trace := [Http (GetRemote (remote_control_url sample_config)),
               Http GetCurrentlyPlaying]\<rparr>"

definition after_note :: "sys \<Rightarrow> sys" where
  "after_note s = s\<lparr>last_checked_track_id := JStr ''t1'',
     last_checked_timestamp := Some sample_now, tick := 4,
     trace := [Http (GetRemote (remote_control_url sample_config)),
               Http GetCurrentlyPlaying,
               Print (MsgCurrentlyPlaying (JStr ''Band'') (JStr ''Song''))]\<rparr>"

definition after_lookup :: "sys \<Rightarrow> sys" where
  "after_lookup s = s\<lparr>last_checked_track_id := JStr ''t1'',
     last_checked_timestamp := Some sample_now, tick := 5,
     trace := [Http (GetRemote (remote_control_url sample_config)),
               Http GetCurrentlyPlaying,
               Print (MsgCurrentlyPlaying (JStr ''Band'') (JStr ''Song'')),
               Http (GetTrackScrobbles (JStr ''Band'') (JStr ''Song''))]\<rparr>"

text \<open>A state in which the track \<open>t1\<close> has been checked already.\<close>

definition seen_sys :: sys where
  "seen_sys = cached_sys\<lparr>last_checked_track_id := JStr ''t1''\<rparr>"

text \<open>Settings with a sample size of one.\<close>

definition single_sample_config :: config where
  "single_sample_config = default_config\<lparr>restart_pattern_song_count := 1\<rparr>"

lemmas sample_defs = response_with_def scrobble_record_def scrobble_list_json_def
  scrobble_object_json_def single_sample_config_def reply_def text_reply_def token_reply_def playing_reply_def
  player_reply_def scrobble_list_reply_def scrobble_object_reply_def no_scrobble_reply_def
  sample_now_def sample_world_def offline_world_def us_per_second_def us_per_day_def
  initial_sys_def cached_sys_def default_config_def sample_config_def gate_world_def
  sample_track_def nameless_artist_reply_def after_gate_def after_observe_def
  after_note_def after_lookup_def seen_sys_def sample_platform_def

section \<open>The remote gate, stated on the lines of the body\<close>

text \<open>
  The first line of the body that holds more than white space, and the gate stated on the
  lines of the body as it arrives: skipping is permitted when that line, without the white
  space around it and in lower case, is \<open>on\<close>; a failed request and a body without such a
  line permit skipping as well.
\<close>

definition first_nonblank_line :: "string \<Rightarrow> string option" where
  "first_nonblank_line t = find (\<lambda>l. py_strip l \<noteq> []) (py_splitlines t)"

definition gate_permits :: "exn + response \<Rightarrow> bool" where
  "gate_permits answer =
     (case answer of
        Inl e \<Rightarrow> True
      | Inr r \<Rightarrow>
          (case first_nonblank_line (resp_text r) of
             None \<Rightarrow> True
           | Some l \<Rightarrow> py_lower (py_strip l) = ''on''))"

text \<open>
  The gate read without trimming: the first line that is not empty, in lower case.
\<close>

definition first_nonempty_line :: "string \<Rightarrow> string option" where
  "first_nonempty_line t = find (\<lambda>l. l \<noteq> []) (py_splitlines t)"

text \<open>
  The effect of lines 637 to 648 on the ledger alone: whether the pattern branch is taken
  and the ledger that is left; and a run of the detector on the values of several skips,
  one after the other.
\<close>

definition pattern_step :: "config \<Rightarrow> int \<Rightarrow> int list \<Rightarrow> bool \<times> int list" where
  "pattern_step cfg days_since ledger =
     (let l = record_skip cfg days_since ledger
      in if is_repeating cfg l = Inr True then (True, []) else (False, l))"

fun pattern_run :: "config \<Rightarrow> int list \<Rightarrow> int list \<Rightarrow> bool list \<times> int list" where
  "pattern_run cfg [] ledger = ([], ledger)"
| "pattern_run cfg (d # ds) ledger =
     (case pattern_step cfg d ledger of
        (fired, l) \<Rightarrow> (case pattern_run cfg ds l of (fs, l') \<Rightarrow> (fired # fs, l')))"

text \<open>
  What the history client reads in an answer: the scrobbles, \<^verbatim>\<open>data["trackscrobbles"]["track"]\<close>
  read with \<^verbatim>\<open>get\<close> as the code does, and in them the timestamp of the latest scrobble,
  \<^verbatim>\<open>scrobbles[0]["date"]["uts"]\<close> for a list and \<^verbatim>\<open>scrobbles["date"]["uts"]\<close> for an object;
  scrobbles that are neither have no timestamp.
\<close>

definition answer_scrobbles :: "response \<Rightarrow> exn + json" where
  "answer_scrobbles r =
     (case json_of r of
        Inl e \<Rightarrow> Inl e
      | Inr j \<Rightarrow>
          (case py_get (or_empty j) ''trackscrobbles'' (JObj fmempty) of
             Inl e \<Rightarrow> Inl e
           | Inr ts \<Rightarrow> py_get ts ''track'' JNull))"

definition record_uts :: "json \<Rightarrow> exn + json" where
  "record_uts rec =
     (case py_get rec ''date'' (JObj fmempty) of
        Inl e \<Rightarrow> Inl e
      | Inr d \<Rightarrow> py_get d ''uts'' JNull)"

fun scrobble_uts :: "json \<Rightarrow> exn + json" where
  "scrobble_uts (JArr xs) = (case xs of [] \<Rightarrow> Inl IndexError | latest # _ \<Rightarrow> record_uts latest)"
| "scrobble_uts (JObj m) = record_uts (JObj m)"
| "scrobble_uts JNull = Inr JNull"
| "scrobble_uts (JNum n) = Inr JNull"
| "scrobble_uts (JStr s) = Inr JNull"

text \<open>
  The track that an answer to the currently-playing request describes: a body that is an
  object with an object \<^verbatim>\<open>item\<close>, in it an \<^verbatim>\<open>id\<close>, a \<^verbatim>\<open>name\<close> and a list \<^verbatim>\<open>artists\<close> whose
  first entry is an object with a \<^verbatim>\<open>name\<close>, the three of them passing Python's truth test.
\<close>

definition described_track :: "response \<Rightarrow> track option" where
  "described_track r =
     (case resp_json r of
        Some (JObj body) \<Rightarrow>
          (case fmlookup body ''item'' of
             Some (JObj item) \<Rightarrow>
               (case (fmlookup item ''id'', fmlookup item ''name'', fmlookup item ''artists'') of
                  (Some tid, Some name, Some (JArr (JObj artist # rest))) \<Rightarrow>
                    (case fmlookup artist ''name'' of
                       Some artist_name \<Rightarrow>
                         if truthy tid \<and> truthy name \<and> truthy artist_name
                         then Some \<lparr> track_id = tid, track_name = name,
                                     track_artist = artist_name \<rparr>
                         else None
                     | None \<Rightarrow> None)
                | _ \<Rightarrow> None)
           | _ \<Rightarrow> None)
      | _ \<Rightarrow> None)"

section \<open>Vocabulary for the properties\<close>

text \<open>The requests the claims speak about.\<close>

fun is_skip :: "event \<Rightarrow> bool" where
  "is_skip (Http PostNext) = True"
| "is_skip e = False"

fun is_lookup :: "event \<Rightarrow> bool" where
  "is_lookup (Http (GetTrackScrobbles a t)) = True"
| "is_lookup e = False"

fun is_pause :: "event \<Rightarrow> bool" where
  "is_pause (Http PutPause) = True"
| "is_pause e = False"

text \<open>An event that is neither a skip, nor a history lookup, nor a pause command.\<close>

abbreviation quiet :: "event \<Rightarrow> bool" where
  "quiet e \<equiv> \<not> is_skip e \<and> \<not> is_lookup e \<and> \<not> is_pause e"

text \<open>
  \<open>emits P m\<close>: whatever the state, \<open>m\<close> only adds events to the trace, and each of them
  satisfies \<open>P\<close>. \<open>keeps f m\<close>: \<open>m\<close> leaves the part \<open>f\<close> of the state as it is.
\<close>

definition emits :: "(event \<Rightarrow> bool) \<Rightarrow> 'a prog \<Rightarrow> bool" where
  "emits P m = (\<forall>s. \<exists>evs. trace (snd (m s)) = trace s @ evs \<and> (\<forall>e\<in>set evs. P e))"

definition keeps :: "(sys \<Rightarrow> 'b) \<Rightarrow> 'a prog \<Rightarrow> bool" where
  "keeps f m = (\<forall>s. f (snd (m s)) = f s)"

text \<open>
  The state of the decision: the last observed track, the temporary pause mark, the
  ledger of recent skips and the manual pause flag.
\<close>

definition decision_state ::
  "sys \<Rightarrow> json \<times> int option \<times> json \<times> int list \<times> bool" where
  "decision_state s = (last_checked_track_id s, last_checked_timestamp s,
     temp_pause_track_id s, recent_skip_days s, skipping_paused s)"

section \<open>Token Manager: when a refresh happens\<close>

lemmas prog_defs = ret_def raise_exn_def bnd_def andthen_def lift_def get_sys_def modify_def
  try_except_def emit_def print_msg_def sleep_def send_def now_utc_def

lemma refresh_trace:
  "\<exists>evs. trace (snd (refresh_access_token w s)) = trace s @ Http PostToken # evs
         \<and> Http PostToken \<notin> set evs"
  by (auto simp: refresh_access_token_def prog_defs split: sum.splits prod.splits if_splits)

lemma token_cached:
  "spotify_token s \<noteq> JNull \<Longrightarrow> clock w (tick s) < token_expires_at s \<Longrightarrow>
   get_spotify_token w s = (Inr (spotify_token s), s\<lparr>tick := Suc (tick s)\<rparr>)"
  by (simp add: get_spotify_token_def prog_defs)

lemma token_result:
  "get_spotify_token w s = (Inr tok, s') \<Longrightarrow> tok = spotify_token s'"
  by (auto simp: get_spotify_token_def prog_defs split: sum.splits prod.splits if_splits)

lemma token_refresh:
  "spotify_token s = JNull \<or> token_expires_at s \<le> clock w (tick s) \<Longrightarrow>
   \<exists>evs. trace (snd (get_spotify_token w s)) = trace s @ Http PostToken # evs
         \<and> Http PostToken \<notin> set evs"
  using refresh_trace[of w s] refresh_trace[of w "s\<lparr>tick := Suc (tick s)\<rparr>"]
  by (auto simp: get_spotify_token_def prog_defs split: sum.splits prod.splits if_splits)

text \<open>
  Claim C3. A call of \<open>get_spotify_token\<close> made while a token is cached and the clock is
  before \<open>token_expires_at\<close> returns the cached token, sends nothing and leaves the state as
  it is (only the clock has been read). A call made with no token cached, or with the clock
  at or after \<open>token_expires_at\<close>, sends the refresh request, exactly once. Hence of two
  consecutive calls, the second sends no refresh when it is made inside the validity window
  of the token the first one returned.
\<close>

theorem token_manager_refresh_policy:
  "(spotify_token s \<noteq> JNull \<and> clock w (tick s) < token_expires_at s \<longrightarrow>
      get_spotify_token w s = (Inr (spotify_token s), s\<lparr>tick := Suc (tick s)\<rparr>))
   \<and> (spotify_token s = JNull \<or> token_expires_at s \<le> clock w (tick s) \<longrightarrow>
      (\<exists>evs. trace (snd (get_spotify_token w s)) = trace s @ Http PostToken # evs
             \<and> Http PostToken \<notin> set evs))
   \<and> (\<forall>tok s1. get_spotify_token w s = (Inr tok, s1) \<and> tok \<noteq> JNull
         \<and> clock w (tick s1) < token_expires_at s1 \<longrightarrow>
       get_spotify_token w s1 = (Inr tok, s1\<lparr>tick := Suc (tick s1)\<rparr>))"
proof (intro conjI impI allI)
  assume "spotify_token s \<noteq> JNull \<and> clock w (tick s) < token_expires_at s"
  then show "get_spotify_token w s = (Inr (spotify_token s), s\<lparr>tick := Suc (tick s)\<rparr>)"
    by (simp add: token_cached)
next
  assume "spotify_token s = JNull \<or> token_expires_at s \<le> clock w (tick s)"
  then show "\<exists>evs. trace (snd (get_spotify_token w s)) = trace s @ Http PostToken # evs
      \<and> Http PostToken \<notin> set evs"
    by (rule token_refresh)
next
  fix tok s1
  assume a: "get_spotify_token w s = (Inr tok, s1) \<and> tok \<noteq> JNull
    \<and> clock w (tick s1) < token_expires_at s1"
  then have "tok = spotify_token s1"
    using token_result by blast
  with a show "get_spotify_token w s1 = (Inr tok, s1\<lparr>tick := Suc (tick s1)\<rparr>)"
    using token_cached[of s1 w] by simp
qed

theorem token_manager_refresh_policy_witness:
  "(spotify_token cached_sys \<noteq> JNull
     \<and> clock (sample_world no_scrobble_reply True) (tick cached_sys)
         < token_expires_at cached_sys)
   \<and> get_spotify_token (sample_world no_scrobble_reply True) cached_sys
       = (Inr (spotify_token cached_sys), cached_sys\<lparr>tick := Suc (tick cached_sys)\<rparr>)
   \<and> spotify_token (initial_sys 0) = JNull
   \<and> (\<exists>evs. trace (snd (get_spotify_token (sample_world no_scrobble_reply True)
                          (initial_sys 0)))
           = trace (initial_sys 0) @ Http PostToken # evs \<and> Http PostToken \<notin> set evs)"
proof -
  let ?w = "sample_world no_scrobble_reply True"
  have a: "spotify_token cached_sys \<noteq> JNull
      \<and> clock ?w (tick cached_sys) < token_expires_at cached_sys"
    by (simp add: sample_defs)
  have b: "spotify_token (initial_sys 0) = JNull"
    by (simp add: sample_defs)
  from a token_manager_refresh_policy[of cached_sys ?w]
  have c: "get_spotify_token ?w cached_sys
      = (Inr (spotify_token cached_sys), cached_sys\<lparr>tick := Suc (tick cached_sys)\<rparr>)"
    by blast
  from b token_manager_refresh_policy[of "initial_sys 0" ?w]
  have d: "\<exists>evs. trace (snd (get_spotify_token ?w (initial_sys 0)))
      = trace (initial_sys 0) @ Http PostToken # evs \<and> Http PostToken \<notin> set evs"
    by blast
  from a b c d show ?thesis by blast
qed

section \<open>Remote control gate: the first line that is not blank\<close>

lemma linebreak_is_space: "is_linebreak c \<Longrightarrow> is_space c"
  by (auto simp: is_linebreak_def is_space_def)

lemma strip_blank:
  assumes "\<forall>c\<in>set t. is_space c"
  shows "py_strip t = []"
  using assms by (auto simp: py_strip_def dest: set_dropWhileD)

lemma strip_empty_iff: "py_strip t = [] \<longleftrightarrow> (\<forall>c\<in>set t. is_space c)"
proof
  assume "py_strip t = []"
  then have "dropWhile is_space (rev (dropWhile is_space t)) = []"
    by (simp add: py_strip_def)
  then have "\<forall>c\<in>set (rev (dropWhile is_space t)). is_space c"
    by (simp only: dropWhile_eq_Nil_conv)
  then have "\<forall>c\<in>set (dropWhile is_space t). is_space c" by simp
  then have "dropWhile is_space t = []"
    by (metis hd_dropWhile list.set_sel(1))
  then show "\<forall>c\<in>set t. is_space c" by (simp only: dropWhile_eq_Nil_conv)
qed (rule strip_blank)

lemma rstrip_append_blank: "\<forall>c\<in>set b. is_space c \<Longrightarrow> rstrip (a @ b) = rstrip a"
  using dropWhile_append2[of "rev b" is_space "rev a"] by (auto simp: rstrip_def)

lemma rstrip_Cons: "\<not> is_space c \<Longrightarrow> rstrip (c # x) = c # rstrip x"
  by (simp add: rstrip_def dropWhile_append)

lemma strip_Cons: "\<not> is_space c \<Longrightarrow> py_strip (c # x) = c # rstrip x"
  using rstrip_Cons by (simp add: py_strip_def rstrip_def)

lemma strip_blank_prefix: "\<forall>c\<in>set p. is_space c \<Longrightarrow> py_strip (p @ x) = py_strip x"
  using dropWhile_append2[of p is_space x] by (auto simp: py_strip_def)

lemma rstrip_decomp: "\<exists>b. (\<forall>c\<in>set b. is_space c) \<and> x = rstrip x @ b"
proof -
  have "rev x = takeWhile is_space (rev x) @ dropWhile is_space (rev x)" by simp
  then have "x = rev (dropWhile is_space (rev x)) @ rev (takeWhile is_space (rev x))"
    by (metis rev_append rev_rev_ident)
  moreover have "\<forall>c\<in>set (rev (takeWhile is_space (rev x))). is_space c"
    by (auto dest: set_takeWhileD)
  ultimately show ?thesis unfolding rstrip_def by blast
qed

lemma rstrip_takeWhile:
  "rstrip (takeWhile (\<lambda>c. \<not> is_linebreak c) x)
   = rstrip (takeWhile (\<lambda>c. \<not> is_linebreak c) (rstrip x))"
proof -
  obtain b where b: "\<forall>c\<in>set b. is_space c" and x: "x = rstrip x @ b"
    using rstrip_decomp by blast
  show ?thesis
  proof (cases "\<forall>c\<in>set (rstrip x). \<not> is_linebreak c")
    case True
    then have "takeWhile (\<lambda>c. \<not> is_linebreak c) (rstrip x @ b)
        = rstrip x @ takeWhile (\<lambda>c. \<not> is_linebreak c) b"
      using takeWhile_append2[of "rstrip x" "\<lambda>c. \<not> is_linebreak c" b] by auto
    moreover have "\<forall>c\<in>set (takeWhile (\<lambda>c. \<not> is_linebreak c) b). is_space c"
      using b by (auto dest: set_takeWhileD)
    moreover have "takeWhile (\<lambda>c. \<not> is_linebreak c) (rstrip x) = rstrip x"
      using True by simp
    ultimately show ?thesis using x rstrip_append_blank by metis
  next
    case False
    then obtain d where "d \<in> set (rstrip x)" "is_linebreak d" by blast
    then have "takeWhile (\<lambda>c. \<not> is_linebreak c) (rstrip x @ b)
        = takeWhile (\<lambda>c. \<not> is_linebreak c) (rstrip x)"
      using takeWhile_append1[of d "rstrip x" "\<lambda>c. \<not> is_linebreak c" b] by auto
    then show ?thesis using x by metis
  qed
qed

lemma splitlines_first:
  "cur \<noteq> [] \<Longrightarrow>
   \<exists>ls. splitlines_from False cur x = (rev cur @ takeWhile (\<lambda>c. \<not> is_linebreak c) x) # ls"
proof (induction x arbitrary: cur)
  case Nil
  then show ?case by simp
next
  case (Cons d x)
  show ?case
  proof (cases "is_linebreak d")
    case True
    then show ?thesis by simp
  next
    case False
    then show ?thesis using Cons.IH[of "d # cur"] by simp
  qed
qed

lemma find_nonblank:
  assumes "\<forall>c\<in>set ws. is_space c" "\<forall>c\<in>set cur. is_space c" "\<not> is_space c"
  shows "\<exists>pre. (\<forall>c\<in>set pre. is_space c) \<and>
     find (\<lambda>l. py_strip l \<noteq> []) (splitlines_from cr cur (ws @ c # x))
       = Some (pre @ c # takeWhile (\<lambda>c. \<not> is_linebreak c) x)"
  using assms
proof (induction ws arbitrary: cr cur)
  case Nil
  have nl: "\<not> is_linebreak c" using Nil(3) linebreak_is_space by blast
  then have "c \<noteq> CHR 0x0A" by (auto simp: is_linebreak_def)
  then have "splitlines_from cr cur (c # x) = splitlines_from False (c # cur) x"
    using nl by simp
  then obtain ls where
    "splitlines_from cr cur (c # x) = (rev cur @ c # takeWhile (\<lambda>c. \<not> is_linebreak c) x) # ls"
    using splitlines_first[of "c # cur" x] by auto
  moreover have "py_strip (rev cur @ c # takeWhile (\<lambda>c. \<not> is_linebreak c) x) \<noteq> []"
    using Nil(3) by (simp add: strip_empty_iff)
  ultimately show ?case using Nil(2) by (intro exI[of _ "rev cur"]) simp
next
  case (Cons d ws)
  have d: "is_space d" and ws: "\<forall>c\<in>set ws. is_space c" using Cons.prems(1) by auto
  have blank: "py_strip (rev cur) = []" using Cons.prems(2) by (simp add: strip_empty_iff)
  consider (lf) "d = CHR 0x0A \<and> cr" | (br) "\<not> (d = CHR 0x0A \<and> cr)" "is_linebreak d"
    | (sp) "\<not> (d = CHR 0x0A \<and> cr)" "\<not> is_linebreak d" by blast
  then show ?case
  proof cases
    case lf
    then have "splitlines_from cr cur ((d # ws) @ c # x)
        = splitlines_from False cur (ws @ c # x)" by simp
    then show ?thesis using Cons.IH[OF ws Cons.prems(2) Cons.prems(3), of False] by simp
  next
    case br
    then have eq: "splitlines_from cr cur ((d # ws) @ c # x)
        = rev cur # splitlines_from (d = CHR 0x0D) [] (ws @ c # x)" by auto
    have "\<forall>c\<in>set ([]::string). is_space c" by simp
    from Cons.IH[OF ws this Cons.prems(3), of "d = CHR 0x0D"] blank
    show ?thesis unfolding eq by simp
  next
    case sp
    then have eq: "splitlines_from cr cur ((d # ws) @ c # x)
        = splitlines_from False (d # cur) (ws @ c # x)" by auto
    have "\<forall>c\<in>set (d # cur). is_space c" using d Cons.prems(2) by simp
    from Cons.IH[OF ws this Cons.prems(3), of False]
    show ?thesis unfolding eq by simp
  qed
qed

lemma splitlines_blank:
  "\<forall>c\<in>set t. is_space c \<Longrightarrow> \<forall>c\<in>set cur. is_space c \<Longrightarrow>
   find (\<lambda>l. py_strip l \<noteq> []) (splitlines_from cr cur t) = None"
  by (induction t arbitrary: cr cur) (auto simp: strip_empty_iff)

lemma first_line_refines:
  "first_line t = (case first_nonblank_line t of
      None \<Rightarrow> Inl IndexError | Some l \<Rightarrow> Inr (py_lower (py_strip l)))"
proof (cases "\<forall>c\<in>set t. is_space c")
  case True
  then have "first_nonblank_line t = None"
    by (simp add: first_nonblank_line_def py_splitlines_def splitlines_blank)
  moreover have "py_strip t = []" using True by (rule strip_blank)
  ultimately show ?thesis by (simp add: first_line_def py_splitlines_def)
next
  case False
  define ws where "ws = takeWhile is_space t"
  define u where "u = dropWhile is_space t"
  have t: "t = ws @ u" by (simp add: ws_def u_def)
  have wsb: "\<forall>c\<in>set ws. is_space c" by (auto simp: ws_def dest: set_takeWhileD)
  have "u \<noteq> []" using False by (simp add: u_def)
  then obtain c x where u: "u = c # x" by (cases u) auto
  have c: "\<not> is_space c" using u hd_dropWhile[of is_space t] \<open>u \<noteq> []\<close> by (simp add: u_def)
  have nl: "\<not> is_linebreak c" using c linebreak_is_space by blast
  let ?nlb = "\<lambda>c. \<not> is_linebreak c"
  have st: "py_strip t = c # rstrip x"
    using strip_blank_prefix[OF wsb, of u] strip_Cons[OF c, of x] by (simp add: t u)
  have "c \<noteq> CHR 0x0A" using nl by (auto simp: is_linebreak_def)
  then obtain ls where "py_splitlines (c # rstrip x) = (c # takeWhile ?nlb (rstrip x)) # ls"
    using splitlines_first[of "[c]" "rstrip x"] nl by (auto simp: py_splitlines_def)
  then have code: "first_line t = Inr (py_lower (py_strip (c # takeWhile ?nlb (rstrip x))))"
    by (simp add: first_line_def st)
  have "\<forall>c\<in>set ([]::string). is_space c" by simp
  from find_nonblank[OF wsb this c, of False x]
  obtain pre where pre: "\<forall>c\<in>set pre. is_space c"
    and f: "first_nonblank_line t = Some (pre @ c # takeWhile ?nlb x)"
    by (auto simp: first_nonblank_line_def py_splitlines_def t u)
  have "py_strip (pre @ c # takeWhile ?nlb x) = c # rstrip (takeWhile ?nlb x)"
    using strip_blank_prefix[OF pre] strip_Cons[OF c] by simp
  also have "\<dots> = c # rstrip (takeWhile ?nlb (rstrip x))"
    using rstrip_takeWhile[of x] by simp
  also have "\<dots> = py_strip (c # takeWhile ?nlb (rstrip x))"
    using strip_Cons[OF c] by simp
  finally show ?thesis using code f by simp
qed

text \<open>
  Claim C7, amended. With a control URL configured, the gate sends one request. When the request
  raises an exception it permits skipping; when the body has no line with more than white
  space it permits skipping (the index error is caught); otherwise it permits skipping
  exactly when the first such line, without the white space around it and in lower case,
  is \<open>on\<close>. Only a \<open>KeyboardInterrupt\<close> passes through the gate.
\<close>

theorem remote_gate_first_line:
  "fst (is_skipping_enabled cfg w s) =
     (let answer = http w (tick s) (GetRemote (remote_control_url cfg))
      in if remote_control_url cfg = [] then Inr True
         else if answer = Inl KeyboardInterrupt then Inl KeyboardInterrupt
         else Inr (gate_permits answer))"
proof (cases "remote_control_url cfg = []")
  case True
  then show ?thesis by (simp add: is_skipping_enabled_def prog_defs)
next
  case False
  show ?thesis
  proof (cases "http w (tick s) (GetRemote (remote_control_url cfg))")
    case (Inl e)
    then show ?thesis using False
      by (simp add: is_skipping_enabled_def prog_defs gate_permits_def is_Exception_def)
  next
    case (Inr r)
    then show ?thesis using False first_line_refines[of "resp_text r"]
      by (simp add: is_skipping_enabled_def prog_defs gate_permits_def is_Exception_def
          split: option.splits)
  qed
qed

theorem remote_gate_first_line_witness:
  "fst (is_skipping_enabled sample_config (gate_world (text_reply ''  On '')) (initial_sys 0))
     = Inr True
   \<and> fst (is_skipping_enabled sample_config (gate_world (text_reply ''off'')) (initial_sys 0))
     = Inr False
   \<and> fst (is_skipping_enabled sample_config (gate_world (text_reply [])) (initial_sys 0))
     = Inr True
   \<and> fst (is_skipping_enabled sample_config offline_world (initial_sys 0)) = Inr True"
proof -
  have on: "gate_permits (text_reply ''  On '')"
    by code_simp
  have off: "\<not> gate_permits (text_reply ''off'')"
    by (simp add: gate_permits_def first_nonblank_line_def text_reply_def py_splitlines_def
        py_strip_def py_lower_def lower_char_def is_space_def is_linebreak_def)
  have blank: "gate_permits (text_reply [])"
    by (simp add: gate_permits_def first_nonblank_line_def text_reply_def py_splitlines_def)
  have url: "remote_control_url sample_config \<noteq> []"
    by (simp add: sample_config_def)
  show ?thesis
    using on off blank url
      remote_gate_first_line[of sample_config "gate_world (text_reply ''  On '')" "initial_sys 0"]
      remote_gate_first_line[of sample_config "gate_world (text_reply ''off'')" "initial_sys 0"]
      remote_gate_first_line[of sample_config "gate_world (text_reply [])" "initial_sys 0"]
      remote_gate_first_line[of sample_config offline_world "initial_sys 0"]
    by (simp add: gate_world_def offline_world_def text_reply_def gate_permits_def)
qed

section \<open>Which events a statement emits, and what it leaves alone\<close>

named_theorems emits_intros
named_theorems keeps_intros

lemma emits_ret [emits_intros]: "emits P (ret x)"
  by (simp add: emits_def ret_def)

lemma emits_raise [emits_intros]: "emits P (raise_exn e)"
  by (simp add: emits_def raise_exn_def)

lemma emits_lift [emits_intros]: "emits P (lift r)"
  by (simp add: emits_def lift_def)

lemma emits_get_sys [emits_intros]: "emits P get_sys"
  by (simp add: emits_def get_sys_def)

lemma emits_now [emits_intros]: "emits P (now_utc w)"
  by (simp add: emits_def now_utc_def)

lemma emits_modify: "(\<And>s. trace (f s) = trace s) \<Longrightarrow> emits P (modify f)"
  by (simp add: emits_def modify_def)

lemma emits_emit: "P e \<Longrightarrow> emits P (emit e)"
  by (simp add: emits_def emit_def modify_def)

lemma emits_print [emits_intros]: "P (Print m) \<Longrightarrow> emits P (print_msg m)"
  by (simp add: print_msg_def emits_emit)

lemma emits_sleep [emits_intros]: "P (Sleep n) \<Longrightarrow> emits P (sleep n)"
  by (simp add: sleep_def emits_emit emits_raise)

lemma emits_send [emits_intros]: "P (Http rq) \<Longrightarrow> emits P (send w rq)"
  by (simp add: emits_def send_def)

lemma emits_bnd [emits_intros]:
  assumes "emits P m" "\<And>x. emits P (f x)"
  shows "emits P (bnd m f)"
  unfolding emits_def
proof
  fix s
  obtain r s1 where m: "m s = (r, s1)" by (cases "m s")
  from assms(1) m obtain e1 where e1: "trace s1 = trace s @ e1" "\<forall>e\<in>set e1. P e"
    unfolding emits_def by (metis snd_conv)
  show "\<exists>evs. trace (snd (bnd m f s)) = trace s @ evs \<and> (\<forall>e\<in>set evs. P e)"
  proof (cases r)
    case (Inl e)
    then show ?thesis using m e1 by (simp add: bnd_def)
  next
    case (Inr x)
    from assms(2)[of x] obtain e2 where
      "trace (snd (f x s1)) = trace s1 @ e2" "\<forall>e\<in>set e2. P e"
      unfolding emits_def by blast
    then show ?thesis using m e1 Inr
      by (intro exI[of _ "e1 @ e2"]) (auto simp: bnd_def)
  qed
qed

lemma emits_andthen [emits_intros]: "emits P m \<Longrightarrow> emits P n \<Longrightarrow> emits P (andthen m n)"
  by (simp add: andthen_def emits_bnd)

lemma emits_try_except [emits_intros]:
  assumes "emits P m" "\<And>e. emits P (h e)"
  shows "emits P (try_except m c h)"
  unfolding emits_def
proof
  fix s
  obtain r s1 where m: "m s = (r, s1)" by (cases "m s")
  from assms(1) m obtain e1 where e1: "trace s1 = trace s @ e1" "\<forall>e\<in>set e1. P e"
    unfolding emits_def by (metis snd_conv)
  show "\<exists>evs. trace (snd (try_except m c h s)) = trace s @ evs \<and> (\<forall>e\<in>set evs. P e)"
  proof (cases r)
    case (Inr x)
    then show ?thesis using m e1 by (simp add: try_except_def)
  next
    case (Inl e)
    from assms(2)[of e] obtain e2 where
      "trace (snd (h e s1)) = trace s1 @ e2" "\<forall>e\<in>set e2. P e"
      unfolding emits_def by blast
    then show ?thesis using m e1 Inl
      by (cases "c e") (auto simp: try_except_def intro: exI[of _ "e1 @ e2"])
  qed
qed

lemma emits_if [emits_intros]: "emits P a \<Longrightarrow> emits P b \<Longrightarrow> emits P (if c then a else b)"
  by simp

lemma emits_case_option [emits_intros]:
  "emits P a \<Longrightarrow> (\<And>x. emits P (b x)) \<Longrightarrow> emits P (case_option a b v)"
  by (cases v) simp_all

lemma emits_weaken: "emits P m \<Longrightarrow> (\<And>e. P e \<Longrightarrow> Q e) \<Longrightarrow> emits Q m"
  unfolding emits_def by blast

lemma emitsD:
  assumes "emits P m" "m s = (r, s')"
  shows "\<exists>evs. trace s' = trace s @ evs \<and> (\<forall>e\<in>set evs. P e)"
  using assms unfolding emits_def by (metis snd_conv)

lemma emits_new_events:
  assumes "emits P m" "m s = (r, s')"
  shows "\<forall>e\<in>set (new_events s s'). P e"
  using emitsD[OF assms] by (auto simp: new_events_def)

lemma keeps_ret [keeps_intros]: "keeps f (ret x)"
  by (simp add: keeps_def ret_def)

lemma keeps_raise [keeps_intros]: "keeps f (raise_exn e)"
  by (simp add: keeps_def raise_exn_def)

lemma keeps_lift [keeps_intros]: "keeps f (lift r)"
  by (simp add: keeps_def lift_def)

lemma keeps_get_sys [keeps_intros]: "keeps f get_sys"
  by (simp add: keeps_def get_sys_def)

lemma keeps_modify: "(\<And>s. f (g s) = f s) \<Longrightarrow> keeps f (modify g)"
  by (simp add: keeps_def modify_def)

lemma keeps_bnd [keeps_intros]:
  assumes "keeps f m" "\<And>x. keeps f (k x)"
  shows "keeps f (bnd m k)"
  unfolding keeps_def
proof
  fix s
  obtain r s1 where m: "m s = (r, s1)" by (cases "m s")
  then have "f s1 = f s" using assms(1) unfolding keeps_def by (metis snd_conv)
  then show "f (snd (bnd m k s)) = f s"
    using m assms(2) unfolding keeps_def by (cases r) (auto simp: bnd_def)
qed

lemma keeps_andthen [keeps_intros]: "keeps f m \<Longrightarrow> keeps f n \<Longrightarrow> keeps f (andthen m n)"
  by (simp add: andthen_def keeps_bnd)

lemma keeps_try_except [keeps_intros]:
  assumes "keeps f m" "\<And>e. keeps f (h e)"
  shows "keeps f (try_except m c h)"
  unfolding keeps_def
proof
  fix s
  obtain r s1 where m: "m s = (r, s1)" by (cases "m s")
  then have "f s1 = f s" using assms(1) unfolding keeps_def by (metis snd_conv)
  then show "f (snd (try_except m c h s)) = f s"
    using m assms(2) unfolding keeps_def by (cases r) (auto simp: try_except_def)
qed

lemma keeps_if [keeps_intros]: "keeps f a \<Longrightarrow> keeps f b \<Longrightarrow> keeps f (if c then a else b)"
  by simp

lemma keeps_case_option [keeps_intros]:
  "keeps f a \<Longrightarrow> (\<And>x. keeps f (b x)) \<Longrightarrow> keeps f (case_option a b v)"
  by (cases v) simp_all

lemma keepsD: "keeps f m \<Longrightarrow> m s = (r, s') \<Longrightarrow> f s' = f s"
  unfolding keeps_def by (metis snd_conv)

text \<open>The primitives leave the state of the decision alone.\<close>

lemma keeps_decision_now [keeps_intros]: "keeps decision_state (now_utc w)"
  by (simp add: keeps_def now_utc_def decision_state_def)

lemma keeps_decision_print [keeps_intros]: "keeps decision_state (print_msg m)"
  by (simp add: keeps_def print_msg_def emit_def modify_def decision_state_def)

lemma keeps_decision_sleep [keeps_intros]: "keeps decision_state (sleep n)"
  by (simp add: keeps_def sleep_def emit_def modify_def raise_exn_def decision_state_def)

lemma keeps_decision_send [keeps_intros]: "keeps decision_state (send w rq)"
  by (simp add: keeps_def send_def decision_state_def)

lemma emits_refresh:
  "P (Http PostToken) \<Longrightarrow> P (Print MsgTokenRefreshed) \<Longrightarrow> emits P (refresh_access_token w)"
  unfolding refresh_access_token_def
  by (intro emits_intros emits_modify) simp_all

lemma emits_token:
  "P (Http PostToken) \<Longrightarrow> P (Print MsgTokenRefreshed) \<Longrightarrow> emits P (get_spotify_token w)"
  unfolding get_spotify_token_def
  by (intro emits_intros emits_refresh allI) simp_all

lemma emits_spotify_get:
  "P (Http PostToken) \<Longrightarrow> P (Print MsgTokenRefreshed) \<Longrightarrow> P (Http rq) \<Longrightarrow>
   emits P (spotify_get w rq)"
  unfolding spotify_get_def
  by (intro emits_intros emits_token) simp_all

lemma emits_spotify_post:
  "P (Http PostToken) \<Longrightarrow> P (Print MsgTokenRefreshed) \<Longrightarrow> P (Http rq) \<Longrightarrow>
   emits P (spotify_post w rq)"
  unfolding spotify_post_def
  by (intro emits_intros emits_token) simp_all

lemma emits_spotify_put:
  "P (Http PostToken) \<Longrightarrow> P (Print MsgTokenRefreshed) \<Longrightarrow> P (Http rq) \<Longrightarrow>
   emits P (spotify_put w rq)"
  unfolding spotify_put_def
  by (intro emits_intros emits_token) simp_all

lemma emits_get_current_track:
  "P (Http PostToken) \<Longrightarrow> P (Print MsgTokenRefreshed) \<Longrightarrow> P (Http GetCurrentlyPlaying) \<Longrightarrow>
   (\<And>n. P (Print (MsgUnexpectedStatus n))) \<Longrightarrow> emits P (get_current_track w)"
  unfolding get_current_track_def
  by (intro emits_intros emits_spotify_get) simp_all

lemma emits_is_skipping_enabled:
  "(\<And>u. P (Http (GetRemote u))) \<Longrightarrow> (\<And>m. P (Print m)) \<Longrightarrow>
   emits P (is_skipping_enabled cfg w)"
  unfolding is_skipping_enabled_def
  by (intro emits_intros) simp_all

lemma emits_get_last_play_date:
  "P (Http (GetTrackScrobbles a t)) \<Longrightarrow> (\<And>m. P (Print m)) \<Longrightarrow>
   emits P (get_last_play_date w a t)"
  unfolding get_last_play_date_def
  by (intro emits_intros) (auto intro!: emits_intros split: json.splits)

lemma emits_is_spotify_paused:
  "P (Http PostToken) \<Longrightarrow> P (Print MsgTokenRefreshed) \<Longrightarrow> P (Http GetPlayer) \<Longrightarrow>
   emits P (is_spotify_paused w)"
  unfolding is_spotify_paused_def
  by (intro emits_intros emits_spotify_get) simp_all

lemma emits_skip_current_track:
  "P (Http PostToken) \<Longrightarrow> (\<And>m. P (Print m)) \<Longrightarrow> P (Http PostNext) \<Longrightarrow>
   emits P (skip_current_track w)"
  unfolding skip_current_track_def
  by (intro emits_intros emits_spotify_post) simp_all

lemma emits_pause_spotify_playback:
  "P (Http PostToken) \<Longrightarrow> (\<And>m. P (Print m)) \<Longrightarrow> P (Http PutPause) \<Longrightarrow>
   emits P (pause_spotify_playback w)"
  unfolding pause_spotify_playback_def
  by (intro emits_intros emits_token) simp_all

lemma emits_restart_playlist:
  assumes "P (Http PostToken)" "P (Print MsgTokenRefreshed)" "P (Http GetCurrentlyPlaying)"
    "\<And>c. P (Http (PutPlay c))" "P (Http PutShuffle)" "P (Sleep 1)"
    "\<And>n. P (Print (MsgNoContextStatus n))" "P (Print MsgNoContext)"
    "\<And>c. P (Print (MsgRestarting c))" "P (Print MsgRestarted)"
    "\<And>e. P (Print (MsgRestartFailed e))"
  shows "emits P (restart_playlist cfg w)"
  unfolding restart_playlist_def
  by (intro emits_intros emits_spotify_get emits_spotify_put) (simp_all add: assms)

lemma keeps_decision_refresh: "keeps decision_state (refresh_access_token w)"
  unfolding refresh_access_token_def
  by (intro keeps_intros keeps_modify) (simp_all add: decision_state_def)

lemma keeps_decision_token: "keeps decision_state (get_spotify_token w)"
  unfolding get_spotify_token_def
  by (intro keeps_intros keeps_decision_refresh allI)

lemma keeps_decision_spotify_get: "keeps decision_state (spotify_get w rq)"
  unfolding spotify_get_def by (intro keeps_intros keeps_decision_token)

lemma keeps_decision_spotify_post: "keeps decision_state (spotify_post w rq)"
  unfolding spotify_post_def by (intro keeps_intros keeps_decision_token)

lemma keeps_decision_spotify_put: "keeps decision_state (spotify_put w rq)"
  unfolding spotify_put_def by (intro keeps_intros keeps_decision_token)

lemma keeps_decision_get_current_track: "keeps decision_state (get_current_track w)"
  unfolding get_current_track_def by (intro keeps_intros keeps_decision_spotify_get)

lemma keeps_decision_is_skipping_enabled: "keeps decision_state (is_skipping_enabled cfg w)"
  unfolding is_skipping_enabled_def by (intro keeps_intros)

lemma keeps_decision_restart_playlist: "keeps decision_state (restart_playlist cfg w)"
  unfolding restart_playlist_def
  by (intro keeps_intros keeps_decision_spotify_get keeps_decision_spotify_put)

text \<open>
  Claim C7, as stated, at a body with a space after the word: the first line that is not
  empty, in lower case, is not \<open>on\<close>, and the gate permits skipping all the same, since it
  trims the line.
\<close>

theorem remote_gate_untrimmed_counterexample:
  "map_option py_lower (first_nonempty_line ''on '') \<noteq> Some ''on''
   \<and> fst (is_skipping_enabled sample_config (gate_world (text_reply ''on '')) (initial_sys 0))
       = Inr True"
  by (simp add: first_nonempty_line_def py_splitlines_def py_lower_def is_linebreak_def
      is_skipping_enabled_def first_line_def py_strip_def is_space_def lower_char_def
      prog_defs sample_defs is_Exception_def)

section \<open>Playback Client: the track that is returned\<close>

lemmas eval_defs = get_current_track_def spotify_get_def spotify_post_def spotify_put_def
  get_spotify_token_def refresh_access_token_def json_of_def or_empty_def
  first_artist_name_def fmlookup_of_list

lemma current_track_truthy:
  "get_current_track w s = (Inr (Some t), s') \<Longrightarrow>
   truthy (track_id t) \<and> truthy (track_name t) \<and> truthy (track_artist t)"
  by (auto simp: get_current_track_def bnd_def andthen_def ret_def lift_def print_msg_def
      emit_def modify_def split: prod.splits sum.splits if_splits)

lemma loop_body_valid_track:
  assumes "\<not> skipping_paused s" "is_skipping_enabled cfg w s = (Inr True, s1)"
    "get_current_track w s1 = (Inr (Some t), s2)"
  shows "loop_body cfg w s = check_track cfg w t s2"
  using assms current_track_truthy[OF assms(3)]
  by (simp add: loop_body_def bnd_def get_sys_def)

lemma described_track_truthy:
  "described_track r = Some t \<Longrightarrow>
   truthy (track_id t) \<and> truthy (track_name t) \<and> truthy (track_artist t)"
  by (auto simp: described_track_def split: option.splits json.splits list.splits if_splits)

lemma current_track_iff:
  "get_current_track w s1 = (Inr (Some t), s2) \<longleftrightarrow>
     (\<exists>r. spotify_get w GetCurrentlyPlaying s1 = (Inr r, s2) \<and> status_code r = 200
        \<and> described_track r = Some t)"
proof (cases "spotify_get w GetCurrentlyPlaying s1")
  case (Pair res s')
  show ?thesis
  proof (cases res)
    case (Inl e)
    then show ?thesis using Pair by (simp add: get_current_track_def bnd_def)
  next
    case (Inr r)
    have pure: "get_current_track w s1 = (Inr (Some t), s2)
        \<longleftrightarrow> s' = s2 \<and> status_code r = 200 \<and> described_track r = Some t"
      using Pair Inr
      by (auto simp: get_current_track_def described_track_def prog_defs json_of_def
          or_empty_def first_artist_name_def
          split: option.splits json.splits list.splits sum.splits if_splits)
    show ?thesis using pure Pair Inr by auto
  qed
qed

text \<open>
  Claim C10, as stated, at an answer whose first artist has no name: the answer misses the
  artist, and \<open>get_current_track\<close> does not return \<^verbatim>\<open>None\<close> but raises \<open>KeyError\<close>.
\<close>

theorem current_track_nameless_artist_counterexample:
  "fst (get_current_track (gate_world nameless_artist_reply) cached_sys) = Inl KeyError"
  by (simp add: eval_defs prog_defs sample_defs)

text \<open>
  Claim C10, amended. \<open>get_current_track\<close> returns a track exactly when the answer to the
  currently-playing request has status 200 and describes that track: its body is an object
  whose \<^verbatim>\<open>item\<close> is an object with an \<^verbatim>\<open>id\<close>, a \<^verbatim>\<open>name\<close> and a list \<^verbatim>\<open>artists\<close> whose first
  entry is an object with a \<^verbatim>\<open>name\<close>, and the three pass Python's truth test; they are the
  fields of the track. So a returned track has a non-empty id, name and artist, and an
  answer that misses one of them yields no track: \<^verbatim>\<open>None\<close> or an exception. Hence, once
  the gates are passed, the loop's two validity checks on the artist and the id do not take
  their failure branch: the body of the loop goes on with \<open>check_track\<close>.
\<close>

theorem current_track_fields_nonempty:
  "(get_current_track w s1 = (Inr (Some t), s2) \<longleftrightarrow>
      (\<exists>r. spotify_get w GetCurrentlyPlaying s1 = (Inr r, s2) \<and> status_code r = 200
         \<and> described_track r = Some t))
   \<and> (get_current_track w s1 = (Inr (Some t), s2) \<longrightarrow>
        truthy (track_id t) \<and> truthy (track_name t) \<and> truthy (track_artist t)
        \<and> (\<forall>cfg s. \<not> skipping_paused s \<and> is_skipping_enabled cfg w s = (Inr True, s1)
              \<longrightarrow> loop_body cfg w s = check_track cfg w t s2))"
  using current_track_iff[of w s1 t s2] current_track_truthy[of w s1 t s2]
    loop_body_valid_track[of _ _ w s1 t s2]
  by blast

theorem current_track_fields_nonempty_witness:
  "spotify_get (sample_world no_scrobble_reply True) GetCurrentlyPlaying cached_sys
     = (Inr (response_with 200 (JObj (fmap_of_list
         [(''item'', JObj (fmap_of_list
            [(''id'', JStr ''t1''), (''name'', JStr ''Song''),
             (''artists'', JArr [JObj (fmap_of_list [(''name'', JStr ''Band'')])])]))]))),
        cached_sys\<lparr>tick := 2, trace := [Http GetCurrentlyPlaying]\<rparr>)
   \<and> described_track (response_with 200 (JObj (fmap_of_list
         [(''item'', JObj (fmap_of_list
            [(''id'', JStr ''t1''), (''name'', JStr ''Song''),
             (''artists'', JArr [JObj (fmap_of_list [(''name'', JStr ''Band'')])])]))])))
       = Some sample_track
   \<and> get_current_track (sample_world no_scrobble_reply True) cached_sys
     = (Inr (Some sample_track), cached_sys\<lparr>tick := 2, trace := [Http GetCurrentlyPlaying]\<rparr>)
   \<and> truthy (track_id sample_track) \<and> truthy (track_name sample_track)
   \<and> truthy (track_artist sample_track)"
proof -
  let ?w = "sample_world no_scrobble_reply True"
  let ?r = "response_with 200 (JObj (fmap_of_list
         [(''item'', JObj (fmap_of_list
            [(''id'', JStr ''t1''), (''name'', JStr ''Song''),
             (''artists'', JArr [JObj (fmap_of_list [(''name'', JStr ''Band'')])])]))]))"
  let ?s2 = "cached_sys\<lparr>tick := 2, trace := [Http GetCurrentlyPlaying]\<rparr>"
  have a: "spotify_get ?w GetCurrentlyPlaying cached_sys = (Inr ?r, ?s2)"
    by (simp add: eval_defs prog_defs sample_defs)
  have b: "status_code ?r = 200" by (simp add: response_with_def)
  have c: "described_track ?r = Some sample_track"
    by (simp add: described_track_def response_with_def sample_track_def fmlookup_of_list)
  from a b c current_track_fields_nonempty[of ?w cached_sys sample_track ?s2]
  have d: "get_current_track ?w cached_sys = (Inr (Some sample_track), ?s2)"
    by blast
  with current_track_fields_nonempty[of ?w cached_sys sample_track ?s2]
  have e: "truthy (track_id sample_track) \<and> truthy (track_name sample_track)
      \<and> truthy (track_artist sample_track)"
    by blast
  from a c d e show ?thesis by blast
qed

section \<open>Pattern Detector: when the pattern branch is taken\<close>

lemma fold_max_Max: "fold max xs (x::int) = Max (set (x # xs))"
  by (rule Max.set_eq_fold[symmetric])

lemma fold_min_Min: "fold min xs (x::int) = Min (set (x # xs))"
  by (rule Min.set_eq_fold[symmetric])

lemma is_repeating_iff:
  "is_repeating cfg l = Inr True \<longleftrightarrow>
     int (length l) = restart_pattern_song_count cfg \<and> l \<noteq> []
     \<and> Max (set l) - Min (set l) \<le> restart_pattern_day_diff cfg"
  by (cases l) (auto simp: is_repeating_def fold_max_Max fold_min_Min)

lemma restart_playlist_result:
  "fst (restart_playlist cfg w s) = Inr () \<or> fst (restart_playlist cfg w s) = Inl KeyboardInterrupt"
  by (auto simp: restart_playlist_def try_except_def is_Exception_def print_msg_def emit_def
      modify_def split: prod.splits sum.splits)

lemma emits_restart_no_pattern:
  "emits (\<lambda>e. e \<noteq> Print MsgPattern) (restart_playlist cfg w)"
  by (rule emits_restart_playlist) simp_all

lemma track_pattern_step:
  assumes "track_pattern cfg w d s = (r, s')" "r \<noteq> Inl KeyboardInterrupt"
  shows "recent_skip_days s' = snd (pattern_step cfg d (recent_skip_days s))
    \<and> (Print MsgPattern \<in> set (new_events s s') \<longleftrightarrow> fst (pattern_step cfg d (recent_skip_days s)))"
proof -
  let ?l = "record_skip cfg d (recent_skip_days s)"
  let ?s1 = "s\<lparr>recent_skip_days := ?l\<rparr>"
  show ?thesis
  proof (cases "is_repeating cfg ?l = Inr True")
    case False
    then have "s' = ?s1"
      using assms(1)
      by (cases "is_repeating cfg ?l")
        (auto simp: track_pattern_def prog_defs split: if_splits)
    then show ?thesis using False by (simp add: pattern_step_def new_events_def)
  next
    case True
    let ?s2 = "?s1\<lparr>trace := trace s @ [Print MsgPattern]\<rparr>"
    obtain r3 s3 where rp: "restart_playlist cfg w ?s2 = (r3, s3)"
      by (cases "restart_playlist cfg w ?s2")
    have tp: "track_pattern cfg w d s =
        (case r3 of Inl e \<Rightarrow> (Inl e, s3) | Inr u \<Rightarrow> (Inr (), s3\<lparr>recent_skip_days := []\<rparr>))"
      using True rp by (simp add: track_pattern_def prog_defs split: sum.splits)
    have "r3 = Inr () \<or> r3 = Inl KeyboardInterrupt"
      using restart_playlist_result[of cfg w ?s2] rp by simp
    then have r3: "r3 = Inr ()" using tp assms by auto
    then have s': "s' = s3\<lparr>recent_skip_days := []\<rparr>" using tp assms(1) by simp
    from emitsD[OF emits_restart_no_pattern rp] obtain evs where
      "trace s3 = trace ?s2 @ evs" by blast
    then have "Print MsgPattern \<in> set (new_events s s')"
      using s' by (simp add: new_events_def)
    then show ?thesis using True s' by (simp add: pattern_step_def)
  qed
qed

lemma pattern_run_short:
  "int (length (l @ ds)) < restart_pattern_song_count cfg \<Longrightarrow>
   pattern_run cfg ds l = (replicate (length ds) False, l @ ds)"
proof (induction ds arbitrary: l)
  case Nil
  then show ?case by simp
next
  case (Cons d ds)
  have st: "pattern_step cfg d l = (False, l @ [d])"
    using Cons.prems by (simp add: pattern_step_def record_skip_def is_repeating_def)
  have "int (length ((l @ [d]) @ ds)) < restart_pattern_song_count cfg"
    using Cons.prems by simp
  from Cons.IH[OF this] st show ?case by simp
qed

lemma pattern_run_append:
  "pattern_run cfg (a @ b) l =
     (case pattern_run cfg a l of (f1, l1) \<Rightarrow>
        (case pattern_run cfg b l1 of (f2, l2) \<Rightarrow> (f1 @ f2, l2)))"
  by (induction a arbitrary: l) (auto split: prod.splits)

lemma pattern_run_full:
  assumes "int (length ds) = restart_pattern_song_count cfg" "ds \<noteq> []"
  shows "pattern_run cfg ds [] =
     (if Max (set ds) - Min (set ds) \<le> restart_pattern_day_diff cfg
      then (replicate (length ds - 1) False @ [True], [])
      else (replicate (length ds) False, ds))"
proof -
  obtain a d where ds: "ds = a @ [d]" using assms(2) by (metis rev_exhaust)
  have "int (length ([] @ a)) < restart_pattern_song_count cfg" using assms(1) ds by simp
  from pattern_run_short[OF this]
  have a: "pattern_run cfg a [] = (replicate (length a) False, a)" by simp
  have rs: "record_skip cfg d a = ds" using assms(1) ds by (simp add: record_skip_def)
  have "pattern_run cfg ds [] =
      (case pattern_step cfg d a of (f, l) \<Rightarrow> (replicate (length a) False @ [f], l))"
    unfolding ds pattern_run_append a by (simp split: prod.splits)
  moreover have "replicate (length a) False @ [False] = replicate (length ds) False"
    unfolding ds by (simp add: replicate_append_same)
  ultimately show ?thesis
    using rs is_repeating_iff[of cfg ds] assms ds by (simp add: pattern_step_def)
qed

text \<open>
  Claim C4, as stated, with a sample size of one: the first skip fires the detector, the
  ledger is cleared, and the very next skip fires it again.
\<close>

theorem pattern_detector_refires_counterexample:
  "pattern_run single_sample_config [3, 100] [] = ([True, True], [])"
  by (simp add: single_sample_config_def default_config_def pattern_step_def record_skip_def
      is_repeating_def)

text \<open>
  Claim C4, amended. The condition of the pattern branch holds exactly when the ledger has as many
  entries as the sample size and the largest and the smallest of them differ by at most the
  tolerance. In the loop, \<open>track_pattern\<close> records the skip, takes the pattern branch
  (announced by \<open>MsgPattern\<close>, followed by the restart of the playlist) exactly in that
  case, and then leaves the ledger empty; otherwise it leaves the ledger with the new entry.
  Fed from the empty ledger, fewer values than the sample size never fire the detector,
  whatever their spread; as many values as the sample size with a spread above the
  tolerance never fire it; as many values within the tolerance fire it once, at the last
  value, and leave the ledger empty, so that again fewer values than the sample size
  cannot fire it: with a sample size of two or more, the skip recorded next does not (with
  a sample size of one it does).
\<close>

theorem pattern_detector_fires:
  "(is_repeating cfg l = Inr True \<longleftrightarrow>
      int (length l) = restart_pattern_song_count cfg \<and> l \<noteq> []
      \<and> Max (set l) - Min (set l) \<le> restart_pattern_day_diff cfg)
   \<and> (fst (pattern_step cfg d l) \<longleftrightarrow> is_repeating cfg (record_skip cfg d l) = Inr True)
   \<and> (fst (pattern_step cfg d l) \<longrightarrow> snd (pattern_step cfg d l) = [])
   \<and> (fst (pattern_step cfg d l) \<and> 2 \<le> restart_pattern_song_count cfg \<longrightarrow>
         (\<forall>d'. \<not> fst (pattern_step cfg d' (snd (pattern_step cfg d l)))))
   \<and> (\<forall>w s. fst (track_pattern cfg w d s) \<noteq> Inl KeyboardInterrupt \<longrightarrow>
         (Print MsgPattern \<in> set (new_events s (snd (track_pattern cfg w d s)))
            \<longleftrightarrow> fst (pattern_step cfg d (recent_skip_days s)))
         \<and> recent_skip_days (snd (track_pattern cfg w d s))
            = snd (pattern_step cfg d (recent_skip_days s)))
   \<and> (int (length ds) < restart_pattern_song_count cfg \<longrightarrow>
         fst (pattern_run cfg ds []) = replicate (length ds) False)
   \<and> (int (length ds) = restart_pattern_song_count cfg \<and> ds \<noteq> []
         \<and> restart_pattern_day_diff cfg < Max (set ds) - Min (set ds) \<longrightarrow>
         fst (pattern_run cfg ds []) = replicate (length ds) False)
   \<and> (int (length ds) = restart_pattern_song_count cfg \<and> ds \<noteq> []
         \<and> Max (set ds) - Min (set ds) \<le> restart_pattern_day_diff cfg \<longrightarrow>
         pattern_run cfg ds [] = (replicate (length ds - 1) False @ [True], []))"
proof (intro conjI allI impI)
  show "is_repeating cfg l = Inr True \<longleftrightarrow>
      int (length l) = restart_pattern_song_count cfg \<and> l \<noteq> []
      \<and> Max (set l) - Min (set l) \<le> restart_pattern_day_diff cfg"
    by (rule is_repeating_iff)
next
  show "fst (pattern_step cfg d l) \<longleftrightarrow> is_repeating cfg (record_skip cfg d l) = Inr True"
    by (simp add: pattern_step_def Let_def)
next
  assume "fst (pattern_step cfg d l)"
  then show "snd (pattern_step cfg d l) = []"
    by (simp add: pattern_step_def Let_def split: if_splits)
next
  fix d'
  assume "fst (pattern_step cfg d l) \<and> 2 \<le> restart_pattern_song_count cfg"
  then have "snd (pattern_step cfg d l) = []" "2 \<le> restart_pattern_song_count cfg"
    by (simp_all add: pattern_step_def Let_def split: if_splits)
  then show "\<not> fst (pattern_step cfg d' (snd (pattern_step cfg d l)))"
    by (simp add: pattern_step_def record_skip_def is_repeating_def)
next
  fix w s
  assume a: "fst (track_pattern cfg w d s) \<noteq> Inl KeyboardInterrupt"
  obtain r s' where tp: "track_pattern cfg w d s = (r, s')"
    by (cases "track_pattern cfg w d s")
  with a have "r \<noteq> Inl KeyboardInterrupt" by simp
  from track_pattern_step[OF tp this] tp
  show "Print MsgPattern \<in> set (new_events s (snd (track_pattern cfg w d s)))
      \<longleftrightarrow> fst (pattern_step cfg d (recent_skip_days s))"
    and "recent_skip_days (snd (track_pattern cfg w d s))
      = snd (pattern_step cfg d (recent_skip_days s))"
    by simp_all
next
  assume "int (length ds) < restart_pattern_song_count cfg"
  then show "fst (pattern_run cfg ds []) = replicate (length ds) False"
    using pattern_run_short[of "[]" ds cfg] by simp
next
  assume "int (length ds) = restart_pattern_song_count cfg \<and> ds \<noteq> []
      \<and> restart_pattern_day_diff cfg < Max (set ds) - Min (set ds)"
  then show "fst (pattern_run cfg ds []) = replicate (length ds) False"
    using pattern_run_full[of ds cfg] by simp
next
  assume "int (length ds) = restart_pattern_song_count cfg \<and> ds \<noteq> []
      \<and> Max (set ds) - Min (set ds) \<le> restart_pattern_day_diff cfg"
  then show "pattern_run cfg ds [] = (replicate (length ds - 1) False @ [True], [])"
    using pattern_run_full[of ds cfg] by simp
qed

theorem pattern_detector_fires_witness:
  "pattern_run default_config [3, 4, 5, 4, 3] [] = ([False, False, False, False, True], [])
   \<and> fst (pattern_run default_config [3, 40] []) = [False, False]
   \<and> fst (pattern_run default_config [3, 4, 5, 4, 9] []) = [False, False, False, False, False]
   \<and> fst (track_pattern default_config offline_world 3
             ((initial_sys 0)\<lparr>recent_skip_days := [3, 4, 5, 4]\<rparr>)) \<noteq> Inl KeyboardInterrupt
   \<and> recent_skip_days (snd (track_pattern default_config offline_world 3
             ((initial_sys 0)\<lparr>recent_skip_days := [3, 4, 5, 4]\<rparr>))) = []"
proof -
  have a: "int (length [3, 4, 5, 4, 3::int]) = restart_pattern_song_count default_config
      \<and> [3, 4, 5, 4, 3::int] \<noteq> []
      \<and> Max (set [3, 4, 5, 4, 3::int]) - Min (set [3, 4, 5, 4, 3::int])
          \<le> restart_pattern_day_diff default_config"
    by (simp add: default_config_def)
  have b: "int (length [3, 40::int]) < restart_pattern_song_count default_config"
    by (simp add: default_config_def)
  have c: "int (length [3, 4, 5, 4, 9::int]) = restart_pattern_song_count default_config
      \<and> [3, 4, 5, 4, 9::int] \<noteq> []
      \<and> restart_pattern_day_diff default_config
          < Max (set [3, 4, 5, 4, 9::int]) - Min (set [3, 4, 5, 4, 9::int])"
    by (simp add: default_config_def)
  let ?s = "(initial_sys 0)\<lparr>recent_skip_days := [3, 4, 5, 4]\<rparr>"
  have d: "fst (track_pattern default_config offline_world 3 ?s) \<noteq> Inl KeyboardInterrupt"
    by (simp add: track_pattern_def record_skip_def is_repeating_def restart_playlist_def
        eval_defs prog_defs sample_defs is_Exception_def)
  have e: "pattern_step default_config 3 (recent_skip_days ?s) = (True, [])"
    by (simp add: pattern_step_def record_skip_def is_repeating_def sample_defs)
  note t = pattern_detector_fires[where cfg = default_config and d = 3]
  from a t[where ds = "[3, 4, 5, 4, 3]"]
  have 1: "pattern_run default_config [3, 4, 5, 4, 3] [] = ([False, False, False, False, True], [])"
    by simp
  from b t[where ds = "[3, 40]"]
  have 2: "fst (pattern_run default_config [3, 40] []) = [False, False]"
    by (simp add: numeral_2_eq_2)
  from c t[where ds = "[3, 4, 5, 4, 9]"]
  have 3: "fst (pattern_run default_config [3, 4, 5, 4, 9] []) = [False, False, False, False, False]"
    by (simp add: numeral_eq_Suc)
  from d e t[where ds = "[]"]
  have 4: "recent_skip_days (snd (track_pattern default_config offline_world 3 ?s)) = []"
    by simp
  from 1 2 3 d 4 show ?thesis by blast
qed

section \<open>History Client: the two shapes of an answer\<close>

lemmas history_defs = get_last_play_date_def convert_uts_def fromtimestamp_utc_def
  utcfromtimestamp_def timestamp_check_def datetime_min_ts_def datetime_max_ts_def

lemmas loop_defs = iteration_def loop_body_def check_track_def note_new_track_def evaluate_def
  decide_def skip_branch_def track_pattern_def is_skipping_enabled_def
  is_spotify_paused_def skip_current_track_def pause_spotify_playback_def
  restart_playlist_def record_skip_def is_repeating_def td_days_def is_Exception_def

lemma sample_uts: "int_of_string ''1699136000'' = Some 1699136000"
  by (simp add: int_of_string_def int_strip_def is_int_space_def is_digit_def digit_val_def
      max_str_digits_def)

lemma sample_gate_line: "first_line ''on'' = Inr ''on''"
  by code_simp

lemma lookup_list_shape:
  assumes "http w (tick s) (GetTrackScrobbles a t) = scrobble_list_reply uts"
    "truthy uts" "py_int uts = Inr n" "timestamp_check w n = None"
  shows "fst (get_last_play_date w a t s) = Inr (Some (Aware (n * us_per_second)))"
  using assms
  by (simp add: get_last_play_date_def convert_uts_def fromtimestamp_utc_def prog_defs
      scrobble_list_reply_def scrobble_list_json_def scrobble_record_def reply_def
      response_with_def json_of_def or_empty_def fmlookup_of_list)

lemma lookup_object_shape:
  assumes "http w (tick s) (GetTrackScrobbles a t) = scrobble_object_reply uts"
    "truthy uts" "py_int uts = Inr n" "timestamp_check w n = None"
  shows "fst (get_last_play_date w a t s) = Inr (Some (Naive (n * us_per_second)))"
  using assms
  by (simp add: get_last_play_date_def convert_uts_def utcfromtimestamp_def prog_defs
      scrobble_object_reply_def scrobble_object_json_def scrobble_record_def reply_def
      response_with_def json_of_def or_empty_def fmlookup_of_list)

text \<open>
  Claim C9 fails on the code. For the same \<^verbatim>\<open>uts\<close>, here 1699136000, the history client
  returns a timezone-aware datetime when the scrobble comes in a list and a naive one when
  it comes as a single object (\<open>lookup_list_shape\<close> and \<open>lookup_object_shape\<close> say so for
  every \<^verbatim>\<open>uts\<close>): the two results are different values, and Python refuses to subtract or
  order one of each.
\<close>

theorem history_shapes_disagree:
  "fst (get_last_play_date (sample_world (scrobble_list_reply (JStr ''1699136000'')) True)
         (JStr ''Band'') (JStr ''Song'') (initial_sys 0))
     = Inr (Some (Aware 1699136000000000))
   \<and> fst (get_last_play_date (sample_world (scrobble_object_reply (JStr ''1699136000'')) True)
         (JStr ''Band'') (JStr ''Song'') (initial_sys 0))
     = Inr (Some (Naive 1699136000000000))
   \<and> dt_sub (Aware sample_now) (Naive 1699136000000000) = Inl TypeError"
  by (simp add: history_defs prog_defs sample_defs json_of_def or_empty_def fmlookup_of_list
      sample_uts)

text \<open>
  Claim C1 fails on the code, by the same defect. The clock stands at 1700000000, the
  window is 60 days, and the history service reports the playing track as last played at
  1699136000, ten days before. When the scrobble comes in a list the loop skips the track.
  When it comes as a single object the lookup returns a timestamp inside the window all
  the same, the subtraction of line 621 raises \<open>TypeError\<close>, the outer handler logs it, and
  no skip is sent.
\<close>

theorem recent_track_object_shape_not_skipped:
  "trace (snd (iteration sample_config
       (sample_world (scrobble_list_reply (JStr ''1699136000'')) True) (initial_sys 0)))
     = [Http (GetRemote ''https://example.org/remote_control.txt''),
        Http PostToken, Print MsgTokenRefreshed, Http GetCurrentlyPlaying,
        Print (MsgCurrentlyPlaying (JStr ''Band'') (JStr ''Song'')),
        Http (GetTrackScrobbles (JStr ''Band'') (JStr ''Song'')),
        Print (MsgLastScrobble (Aware 1699136000000000) 10),
        Print (MsgSkipping 10), Http GetPlayer, Http PostNext, Sleep 5,
        Print MsgCheckingNext]
   \<and> trace (snd (iteration sample_config
       (sample_world (scrobble_object_reply (JStr ''1699136000'')) True) (initial_sys 0)))
     = [Http (GetRemote ''https://example.org/remote_control.txt''),
        Http PostToken, Print MsgTokenRefreshed, Http GetCurrentlyPlaying,
        Print (MsgCurrentlyPlaying (JStr ''Band'') (JStr ''Song'')),
        Http (GetTrackScrobbles (JStr ''Band'') (JStr ''Song'')),
        Print (MsgUnexpected TypeError), Sleep 120, Sleep 120]"
  by (simp add: loop_defs eval_defs history_defs prog_defs sample_defs sample_uts
      sample_gate_line)

section \<open>Decision Loop: the stages of an iteration\<close>

lemma new_events_append: "trace s' = trace s @ evs \<Longrightarrow> new_events s s' = evs"
  by (simp add: new_events_def)

lemma check_track_same:
  assumes "track_id t = last_checked_track_id s"
  shows "check_track cfg w t s =
     andthen (print_msg (MsgSameSong (track_name t))) (
       andthen (sleep (poll_interval_seconds cfg)) (ret Next_iteration)) s"
  using assms by (simp add: check_track_def bnd_def get_sys_def)

lemma note_new_track_ok: "fst (note_new_track w t s) = Inr ()"
  by (simp add: note_new_track_def prog_defs)

lemma check_track_new:
  assumes "track_id t \<noteq> last_checked_track_id s" "note_new_track w t s = (r, s3)"
    "temp_pause_track_id s3 \<noteq> track_id t"
  shows "check_track cfg w t s = evaluate cfg w t s3"
proof -
  have "r = Inr ()" using note_new_track_ok[of w t s] assms(2) by simp
  then show ?thesis using assms
    by (simp add: check_track_def bnd_def andthen_def get_sys_def)
qed

lemma emits_note_new_track:
  "(\<And>m. P (Print m)) \<Longrightarrow> emits P (note_new_track w t)"
  unfolding note_new_track_def
  by (intro emits_intros emits_modify allI) simp_all

lemma gate_quiet: "emits quiet (is_skipping_enabled cfg w)"
  by (rule emits_is_skipping_enabled) simp_all

lemma observe_quiet: "emits quiet (get_current_track w)"
  by (rule emits_get_current_track) simp_all

lemma note_quiet: "emits quiet (note_new_track w t)"
  by (rule emits_note_new_track) simp_all

lemma handler_result:
  assumes "loop_body cfg w s = (Inl e, s1)" "e \<noteq> KeyboardInterrupt"
    "0 \<le> poll_interval_seconds cfg"
  shows "iteration cfg w s = (Inr True, s1\<lparr>trace := trace s1 @
     [Print (MsgUnexpected e), Sleep (poll_interval_seconds cfg),
      Sleep (poll_interval_seconds cfg)]\<rparr>)"
  using assms by (simp add: iteration_def prog_defs)

lemma iteration_events:
  assumes "loop_body cfg w s = (r, s1)"
  shows "\<exists>evs. trace (snd (iteration cfg w s)) = trace s1 @ evs
     \<and> (\<forall>e\<in>set evs. quiet e) \<and> decision_state (snd (iteration cfg w s)) = decision_state s1"
proof (cases r)
  case (Inl e)
  then show ?thesis using assms
    by (cases "poll_interval_seconds cfg < 0")
      (auto simp: iteration_def prog_defs decision_state_def)
next
  case (Inr f)
  then show ?thesis using assms
    by (cases f; cases "poll_interval_seconds cfg < 0")
      (auto simp: iteration_def prog_defs decision_state_def)
qed

text \<open>
  Claim C5. Take an iteration that passes the manual and the remote gate and observes a
  track whose id is the one recorded as last checked. It sends no history lookup and no
  skip, and it leaves the state of the decision (last checked track and time, temporary
  pause mark, ledger, manual pause flag) as it was. With a poll interval that
  \<^verbatim>\<open>time.sleep\<close> accepts, the iteration is over after the message about the same song and
  one sleep of the poll interval, and the loop goes on.
\<close>

theorem same_track_not_evaluated:
  assumes "\<not> skipping_paused s" "is_skipping_enabled cfg w s = (Inr True, s1)"
    "get_current_track w s1 = (Inr (Some t), s2)"
    "track_id t = last_checked_track_id s"
  shows "\<not> list_ex is_lookup (new_events s (snd (iteration cfg w s)))
    \<and> \<not> list_ex is_skip (new_events s (snd (iteration cfg w s)))
    \<and> decision_state (snd (iteration cfg w s)) = decision_state s
    \<and> (0 \<le> poll_interval_seconds cfg \<longrightarrow>
         iteration cfg w s = (Inr True, s2\<lparr>trace := trace s2 @
           [Print (MsgSameSong (track_name t)), Sleep (poll_interval_seconds cfg)]\<rparr>))"
proof -
  let ?p = "poll_interval_seconds cfg"
  from emitsD[OF gate_quiet assms(2)] obtain e1 where
    e1: "trace s1 = trace s @ e1" "\<forall>e\<in>set e1. quiet e" by blast
  from emitsD[OF observe_quiet assms(3)] obtain e2 where
    e2: "trace s2 = trace s1 @ e2" "\<forall>e\<in>set e2. quiet e" by blast
  have d1: "decision_state s1 = decision_state s"
    using keepsD[OF keeps_decision_is_skipping_enabled assms(2)] .
  have d2: "decision_state s2 = decision_state s1"
    using keepsD[OF keeps_decision_get_current_track assms(3)] .
  have same: "track_id t = last_checked_track_id s2"
    using assms(4) d1 d2 by (simp add: decision_state_def)
  have body: "loop_body cfg w s =
      andthen (print_msg (MsgSameSong (track_name t))) (
        andthen (sleep ?p) (ret Next_iteration)) s2"
    using loop_body_valid_track[OF assms(1,2,3)] check_track_same[OF same] by simp
  obtain r s3 where b3: "loop_body cfg w s = (r, s3)" by (cases "loop_body cfg w s")
  have s3: "\<exists>e3. trace s3 = trace s2 @ e3 \<and> (\<forall>e\<in>set e3. quiet e)
      \<and> decision_state s3 = decision_state s2"
    using body b3 by (cases "?p < 0") (auto simp: prog_defs decision_state_def)
  then obtain e3 where e3: "trace s3 = trace s2 @ e3" "\<forall>e\<in>set e3. quiet e"
    and d3: "decision_state s3 = decision_state s2" by blast
  from iteration_events[OF b3] obtain e4 where
    e4: "trace (snd (iteration cfg w s)) = trace s3 @ e4" "\<forall>e\<in>set e4. quiet e"
    and d4: "decision_state (snd (iteration cfg w s)) = decision_state s3" by blast
  have "trace (snd (iteration cfg w s)) = trace s @ (e1 @ e2 @ e3 @ e4)"
    using e1 e2 e3 e4 by simp
  then have ne: "new_events s (snd (iteration cfg w s)) = e1 @ e2 @ e3 @ e4"
    by (rule new_events_append)
  have q: "\<forall>e\<in>set (e1 @ e2 @ e3 @ e4). quiet e"
    using e1 e2 e3 e4 by auto
  have "0 \<le> ?p \<longrightarrow> iteration cfg w s = (Inr True, s2\<lparr>trace := trace s2 @
           [Print (MsgSameSong (track_name t)), Sleep ?p]\<rparr>)"
    using body by (simp add: iteration_def prog_defs)
  then show ?thesis using ne q d1 d2 d3 d4 by (simp add: list_ex_iff)
qed

section \<open>Decision Loop: no history, no skip\<close>

lemma no_history_no_skip:
  assumes "\<not> skipping_paused s" "is_skipping_enabled cfg w s = (Inr True, s1)"
    "get_current_track w s1 = (Inr (Some t), s2)"
    "track_id t \<noteq> last_checked_track_id s2"
    "note_new_track w t s2 = (Inr (), s3)"
    "temp_pause_track_id s3 \<noteq> track_id t"
    "get_last_play_date w (track_artist t) (track_name t) s3 = (Inr None, s4)"
  shows "\<not> list_ex is_skip (new_events s (snd (iteration cfg w s)))
    \<and> (0 \<le> poll_interval_seconds cfg \<longrightarrow>
         iteration cfg w s = (Inr True, s4\<lparr>trace := trace s4 @
           [Print MsgNoScrobble, Sleep (poll_interval_seconds cfg)]\<rparr>))"
proof -
  let ?p = "poll_interval_seconds cfg"
  let ?s5 = "s4\<lparr>trace := trace s4 @ [Print MsgNoScrobble]\<rparr>"
  from emitsD[OF gate_quiet assms(2)] obtain e1 where
    e1: "trace s1 = trace s @ e1" "\<forall>e\<in>set e1. quiet e" by blast
  from emitsD[OF observe_quiet assms(3)] obtain e2 where
    e2: "trace s2 = trace s1 @ e2" "\<forall>e\<in>set e2. quiet e" by blast
  from emitsD[OF note_quiet assms(5)] obtain e3 where
    e3: "trace s3 = trace s2 @ e3" "\<forall>e\<in>set e3. quiet e" by blast
  have "emits (\<lambda>e. \<not> is_skip e)
      (get_last_play_date w (track_artist t) (track_name t))"
    by (rule emits_get_last_play_date) simp_all
  from emitsD[OF this assms(7)] obtain e4 where
    e4: "trace s4 = trace s3 @ e4" "\<forall>e\<in>set e4. \<not> is_skip e" by blast
  have body: "loop_body cfg w s = (Inr End_of_body, ?s5)"
    using loop_body_valid_track[OF assms(1,2,3)] check_track_new[OF assms(4,5,6)] assms(7)
    by (simp add: evaluate_def decide_def prog_defs)
  from iteration_events[OF body] obtain e5 where
    e5: "trace (snd (iteration cfg w s)) = trace ?s5 @ e5" "\<forall>e\<in>set e5. quiet e" by blast
  have "trace (snd (iteration cfg w s))
      = trace s @ (e1 @ e2 @ e3 @ e4 @ [Print MsgNoScrobble] @ e5)"
    using e1 e2 e3 e4 e5 by simp
  then have ne: "new_events s (snd (iteration cfg w s))
      = e1 @ e2 @ e3 @ e4 @ [Print MsgNoScrobble] @ e5"
    by (rule new_events_append)
  have q: "\<forall>e\<in>set (e1 @ e2 @ e3 @ e4 @ [Print MsgNoScrobble] @ e5). \<not> is_skip e"
    using e1 e2 e3 e4 e5 by auto
  have "0 \<le> ?p \<longrightarrow> iteration cfg w s = (Inr True, s4\<lparr>trace := trace s4 @
           [Print MsgNoScrobble, Sleep ?p]\<rparr>)"
    using body by (simp add: iteration_def prog_defs)
  then show ?thesis using ne q by (simp add: list_ex_iff)
qed

lemma lookup_cases:
  assumes "http w (tick s) (GetTrackScrobbles a t) = Inr r" "status_code r = 200"
    "answer_scrobbles r = Inr sc" "scrobble_uts sc = Inr uts"
  shows "fst (get_last_play_date w a t s) =
     (if truthy sc \<and> truthy uts
      then convert_uts w (case sc of JArr xs \<Rightarrow> fromtimestamp_utc | _ \<Rightarrow> utcfromtimestamp) uts
      else Inr None)"
  using assms
  by (cases sc)
    (auto simp: get_last_play_date_def prog_defs answer_scrobbles_def record_uts_def
      split: sum.splits list.splits)

lemma lookup_transport:
  "http w (tick s) (GetTrackScrobbles a t) = Inl e \<Longrightarrow>
   fst (get_last_play_date w a t s) = (if e = RequestException then Inr None else Inl e)"
  by (simp add: get_last_play_date_def prog_defs)

lemma lookup_status:
  "http w (tick s) (GetTrackScrobbles a t) = Inr r \<Longrightarrow> status_code r \<noteq> 200 \<Longrightarrow>
   fst (get_last_play_date w a t s) = Inr None"
  by (simp add: get_last_play_date_def prog_defs)

lemma lookup_structure_raises:
  "http w (tick s) (GetTrackScrobbles a t) = Inr r \<Longrightarrow> status_code r = 200 \<Longrightarrow>
   answer_scrobbles r = Inl e \<Longrightarrow> fst (get_last_play_date w a t s) = Inl e"
  by (auto simp: get_last_play_date_def prog_defs answer_scrobbles_def split: sum.splits)

lemma lookup_empty:
  "http w (tick s) (GetTrackScrobbles a t) = Inr r \<Longrightarrow> status_code r = 200 \<Longrightarrow>
   answer_scrobbles r = Inr sc \<Longrightarrow> \<not> truthy sc \<Longrightarrow>
   fst (get_last_play_date w a t s) = Inr None"
  by (auto simp: get_last_play_date_def prog_defs answer_scrobbles_def split: sum.splits)

lemma lookup_record_raises:
  "http w (tick s) (GetTrackScrobbles a t) = Inr r \<Longrightarrow> status_code r = 200 \<Longrightarrow>
   answer_scrobbles r = Inr sc \<Longrightarrow> truthy sc \<Longrightarrow> scrobble_uts sc = Inl e \<Longrightarrow>
   fst (get_last_play_date w a t s) = Inl e"
  by (cases sc)
    (auto simp: get_last_play_date_def prog_defs answer_scrobbles_def record_uts_def
      split: sum.splits list.splits)

lemma convert_uts_Some:
  "convert_uts w mk uts = Inr (Some dt) \<Longrightarrow>
   \<exists>n. py_int uts = Inr n \<and> timestamp_check w n = None \<and> dt = mk n"
  by (auto simp: convert_uts_def split: sum.splits option.splits if_splits)

lemma lookup_timestamp_only_if:
  assumes "fst (get_last_play_date w a t s) = Inr (Some dt)"
  shows "\<exists>r sc uts n. http w (tick s) (GetTrackScrobbles a t) = Inr r \<and> status_code r = 200
     \<and> answer_scrobbles r = Inr sc \<and> truthy sc \<and> scrobble_uts sc = Inr uts \<and> truthy uts
     \<and> py_int uts = Inr n \<and> timestamp_check w n = None
     \<and> (dt = Aware (n * us_per_second) \<or> dt = Naive (n * us_per_second))"
proof (cases "http w (tick s) (GetTrackScrobbles a t)")
  case (Inl e)
  then show ?thesis using assms lookup_transport[of w s a t e] by (simp split: if_splits)
next
  case (Inr r)
  show ?thesis
  proof (cases "status_code r = 200")
    case False
    then show ?thesis using assms lookup_status[OF Inr] by simp
  next
    case True
    show ?thesis
    proof (cases "answer_scrobbles r")
      case (Inl e)
      then show ?thesis using assms lookup_structure_raises[OF Inr True] by simp
    next
      case sc: (Inr sc)
      show ?thesis
      proof (cases "truthy sc")
        case False
        then show ?thesis using assms lookup_empty[OF Inr True sc] by simp
      next
        case tsc: True
        show ?thesis
        proof (cases "scrobble_uts sc")
          case (Inl e)
          then show ?thesis using assms lookup_record_raises[OF Inr True sc tsc] by simp
        next
          case uts: (Inr uts)
          from lookup_cases[OF Inr True sc uts] assms tsc
          have tu: "truthy uts"
            and cv: "convert_uts w (case sc of JArr xs \<Rightarrow> fromtimestamp_utc
                       | _ \<Rightarrow> utcfromtimestamp) uts = Inr (Some dt)"
            by (auto split: if_splits)
          from convert_uts_Some[OF cv] obtain n where
            n: "py_int uts = Inr n" "timestamp_check w n = None"
            "dt = (case sc of JArr xs \<Rightarrow> fromtimestamp_utc | _ \<Rightarrow> utcfromtimestamp) n"
            by blast
          have "dt = Aware (n * us_per_second) \<or> dt = Naive (n * us_per_second)"
            using n(3) by (cases sc) (simp_all add: fromtimestamp_utc_def utcfromtimestamp_def)
          then show ?thesis using Inr True sc tsc uts tu n by blast
        qed
      qed
    qed
  qed
qed

lemma lookup_malformed_absent:
  assumes "http w (tick s) (GetTrackScrobbles a t) = Inr r" "status_code r = 200"
    "answer_scrobbles r = Inr sc" "scrobble_uts sc = Inr uts"
    "\<not> truthy uts \<or> py_int uts = Inl ValueError
       \<or> (\<exists>n. py_int uts = Inr n \<and> timestamp_check w n = Some ValueError)"
  shows "fst (get_last_play_date w a t s) = Inr None"
  using lookup_cases[OF assms(1-4)] assms(5) by (auto simp: convert_uts_def)

lemma no_timestamp_no_skip:
  assumes "\<not> skipping_paused s" "is_skipping_enabled cfg w s = (Inr True, s1)"
    "get_current_track w s1 = (Inr (Some t), s2)"
    "track_id t \<noteq> last_checked_track_id s2"
    "note_new_track w t s2 = (Inr (), s3)"
    "temp_pause_track_id s3 \<noteq> track_id t"
    "get_last_play_date w (track_artist t) (track_name t) s3 = (res, s4)"
    "\<forall>dt. res \<noteq> Inr (Some dt)"
  shows "\<not> list_ex is_skip (new_events s (snd (iteration cfg w s)))"
proof (cases res)
  case (Inr v)
  then have "res = Inr None" using assms(8) by (cases v) auto
  then show ?thesis using no_history_no_skip[OF assms(1-6)] assms(7) by simp
next
  case (Inl e)
  from emitsD[OF gate_quiet assms(2)] obtain e1 where
    e1: "trace s1 = trace s @ e1" "\<forall>e\<in>set e1. quiet e" by blast
  from emitsD[OF observe_quiet assms(3)] obtain e2 where
    e2: "trace s2 = trace s1 @ e2" "\<forall>e\<in>set e2. quiet e" by blast
  from emitsD[OF note_quiet assms(5)] obtain e3 where
    e3: "trace s3 = trace s2 @ e3" "\<forall>e\<in>set e3. quiet e" by blast
  have "emits (\<lambda>e. \<not> is_skip e)
      (get_last_play_date w (track_artist t) (track_name t))"
    by (rule emits_get_last_play_date) simp_all
  from emitsD[OF this assms(7)] obtain e4 where
    e4: "trace s4 = trace s3 @ e4" "\<forall>e\<in>set e4. \<not> is_skip e" by blast
  have body: "loop_body cfg w s = (Inl e, s4)"
    using loop_body_valid_track[OF assms(1,2,3)] check_track_new[OF assms(4,5,6)] assms(7) Inl
    by (simp add: evaluate_def bnd_def)
  from iteration_events[OF body] obtain e5 where
    e5: "trace (snd (iteration cfg w s)) = trace s4 @ e5" "\<forall>e\<in>set e5. quiet e" by blast
  have "trace (snd (iteration cfg w s)) = trace s @ (e1 @ e2 @ e3 @ e4 @ e5)"
    using e1 e2 e3 e4 e5 by simp
  then have "new_events s (snd (iteration cfg w s)) = e1 @ e2 @ e3 @ e4 @ e5"
    by (rule new_events_append)
  moreover have "\<forall>e\<in>set (e1 @ e2 @ e3 @ e4 @ e5). \<not> is_skip e"
    using e1 e2 e3 e4 e5 by auto
  ultimately show ?thesis by (simp add: list_ex_iff)
qed

text \<open>
  Claim C2. The history lookup returns \<^verbatim>\<open>None\<close> when the request fails in transport, when
  the status is not 200, when the answer holds no scrobble, and when the timestamp of the
  latest scrobble is missing or empty, is a string that \<^verbatim>\<open>int()\<close> refuses, or is a number of
  seconds outside the years that \<^verbatim>\<open>datetime\<close> holds, whatever the answer otherwise looks
  like. It returns a timestamp only for a timestamp field that \<^verbatim>\<open>int()\<close> and the datetime
  conversion accept; any other malformed answer makes it raise. And an iteration whose
  history lookup for the new track gives no timestamp, be it \<^verbatim>\<open>None\<close> or an exception,
  sends no skip; when it is \<^verbatim>\<open>None\<close> the iteration prints that there is no scrobble and,
  with a poll interval that \<^verbatim>\<open>time.sleep\<close> accepts, sleeps the poll interval once and goes
  on.
\<close>

theorem absent_history_never_skips:
  "(http w (tick s) (GetTrackScrobbles a t) = Inl RequestException \<longrightarrow>
      fst (get_last_play_date w a t s) = Inr None)
   \<and> (\<forall>r. http w (tick s) (GetTrackScrobbles a t) = Inr r \<and> status_code r \<noteq> 200 \<longrightarrow>
      fst (get_last_play_date w a t s) = Inr None)
   \<and> (\<forall>r sc. http w (tick s) (GetTrackScrobbles a t) = Inr r \<and> status_code r = 200
        \<and> answer_scrobbles r = Inr sc \<and> \<not> truthy sc \<longrightarrow>
      fst (get_last_play_date w a t s) = Inr None)
   \<and> (\<forall>r sc uts. http w (tick s) (GetTrackScrobbles a t) = Inr r \<and> status_code r = 200
        \<and> answer_scrobbles r = Inr sc \<and> scrobble_uts sc = Inr uts
        \<and> (\<not> truthy uts \<or> py_int uts = Inl ValueError
             \<or> (\<exists>n. py_int uts = Inr n \<and> timestamp_check w n = Some ValueError)) \<longrightarrow>
      fst (get_last_play_date w a t s) = Inr None)
   \<and> (\<forall>dt. fst (get_last_play_date w a t s) = Inr (Some dt) \<longrightarrow>
        (\<exists>r sc uts n. http w (tick s) (GetTrackScrobbles a t) = Inr r \<and> status_code r = 200
           \<and> answer_scrobbles r = Inr sc \<and> truthy sc \<and> scrobble_uts sc = Inr uts
           \<and> truthy uts \<and> py_int uts = Inr n \<and> timestamp_check w n = None
           \<and> (dt = Aware (n * us_per_second) \<or> dt = Naive (n * us_per_second))))
   \<and> (\<forall>cfg tr s0 s1 s2 s3 s4 res.
        \<not> skipping_paused s0 \<and> is_skipping_enabled cfg w s0 = (Inr True, s1)
        \<and> get_current_track w s1 = (Inr (Some tr), s2)
        \<and> track_id tr \<noteq> last_checked_track_id s2
        \<and> note_new_track w tr s2 = (Inr (), s3)
        \<and> temp_pause_track_id s3 \<noteq> track_id tr
        \<and> get_last_play_date w (track_artist tr) (track_name tr) s3 = (res, s4)
        \<and> (\<forall>dt. res \<noteq> Inr (Some dt)) \<longrightarrow>
        \<not> list_ex is_skip (new_events s0 (snd (iteration cfg w s0)))
        \<and> (res = Inr None \<and> 0 \<le> poll_interval_seconds cfg \<longrightarrow>
             iteration cfg w s0 = (Inr True, s4\<lparr>trace := trace s4 @
               [Print MsgNoScrobble, Sleep (poll_interval_seconds cfg)]\<rparr>)))"
proof (intro conjI allI impI)
  assume "http w (tick s) (GetTrackScrobbles a t) = Inl RequestException"
  then show "fst (get_last_play_date w a t s) = Inr None"
    using lookup_transport by simp
next
  fix r
  assume "http w (tick s) (GetTrackScrobbles a t) = Inr r \<and> status_code r \<noteq> 200"
  then show "fst (get_last_play_date w a t s) = Inr None"
    using lookup_status by blast
next
  fix r sc
  assume "http w (tick s) (GetTrackScrobbles a t) = Inr r \<and> status_code r = 200
      \<and> answer_scrobbles r = Inr sc \<and> \<not> truthy sc"
  then show "fst (get_last_play_date w a t s) = Inr None"
    using lookup_empty by blast
next
  fix r sc uts
  assume "http w (tick s) (GetTrackScrobbles a t) = Inr r \<and> status_code r = 200
      \<and> answer_scrobbles r = Inr sc \<and> scrobble_uts sc = Inr uts
      \<and> (\<not> truthy uts \<or> py_int uts = Inl ValueError
           \<or> (\<exists>n. py_int uts = Inr n \<and> timestamp_check w n = Some ValueError))"
  then show "fst (get_last_play_date w a t s) = Inr None"
    using lookup_malformed_absent[of w s a t r sc uts] by blast
next
  fix dt
  assume "fst (get_last_play_date w a t s) = Inr (Some dt)"
  then show "\<exists>r sc uts n. http w (tick s) (GetTrackScrobbles a t) = Inr r
      \<and> status_code r = 200 \<and> answer_scrobbles r = Inr sc \<and> truthy sc
      \<and> scrobble_uts sc = Inr uts \<and> truthy uts \<and> py_int uts = Inr n
      \<and> timestamp_check w n = None
      \<and> (dt = Aware (n * us_per_second) \<or> dt = Naive (n * us_per_second))"
    by (rule lookup_timestamp_only_if)
next
  fix cfg tr s0 s1 s2 s3 s4 res
  assume h: "\<not> skipping_paused s0 \<and> is_skipping_enabled cfg w s0 = (Inr True, s1)
      \<and> get_current_track w s1 = (Inr (Some tr), s2)
      \<and> track_id tr \<noteq> last_checked_track_id s2
      \<and> note_new_track w tr s2 = (Inr (), s3)
      \<and> temp_pause_track_id s3 \<noteq> track_id tr
      \<and> get_last_play_date w (track_artist tr) (track_name tr) s3 = (res, s4)
      \<and> (\<forall>dt. res \<noteq> Inr (Some dt))"
  then show "\<not> list_ex is_skip (new_events s0 (snd (iteration cfg w s0)))"
    using no_timestamp_no_skip[of s0 cfg w s1 tr s2 s3 res s4] by blast
  assume "res = Inr None \<and> 0 \<le> poll_interval_seconds cfg"
  then show "iteration cfg w s0 = (Inr True, s4\<lparr>trace := trace s4 @
      [Print MsgNoScrobble, Sleep (poll_interval_seconds cfg)]\<rparr>)"
    using h no_history_no_skip[of s0 cfg w s1 tr s2 s3 s4] by blast
qed

section \<open>Decision Loop: the skip branch\<close>

lemma token_quiet: "emits quiet (get_spotify_token w)"
  by (rule emits_token) simp_all

lemma paused_quiet: "emits quiet (is_spotify_paused w)"
  by (rule emits_is_spotify_paused) simp_all

lemma restart_quiet: "emits quiet (restart_playlist cfg w)"
  by (rule emits_restart_playlist) simp_all

lemma emits_track_pattern:
  "emits quiet (track_pattern cfg w d)"
  unfolding track_pattern_def
  by (intro emits_intros emits_modify restart_quiet allI) simp_all

lemma skip_no_pause: "emits (\<lambda>e. \<not> is_pause e) (skip_current_track w)"
  by (rule emits_skip_current_track) simp_all

lemma skip_call_events:
  assumes "skip_current_track w s = (Inr u, s')"
  shows "\<exists>a b. trace s' = trace s @ a @ Http PostNext # b \<and> (\<forall>e\<in>set (a @ b). quiet e)"
proof -
  obtain rt sa where tk: "get_spotify_token w s = (rt, sa)"
    by (cases "get_spotify_token w s")
  from emitsD[OF token_quiet tk] obtain a where
    a: "trace sa = trace s @ a" "\<forall>e\<in>set a. quiet e" by blast
  have "\<exists>b. trace s' = trace sa @ Http PostNext # b \<and> (\<forall>e\<in>set b. quiet e)"
    using assms tk
    by (cases rt; cases "http w (tick sa) PostNext")
      (auto simp: skip_current_track_def spotify_post_def prog_defs split: if_splits)
  then show ?thesis using a by auto
qed

lemma pause_call_events:
  assumes "pause_spotify_playback w s = (Inr u, s')"
  shows "\<exists>a b. trace s' = trace s @ a @ Http PutPause # b \<and> (\<forall>e\<in>set (a @ b). quiet e)"
proof -
  obtain rt sa where tk: "get_spotify_token w s = (rt, sa)"
    by (cases "get_spotify_token w s")
  from emitsD[OF token_quiet tk] obtain a where
    a: "trace sa = trace s @ a" "\<forall>e\<in>set a. quiet e" by blast
  have "\<exists>b. trace s' = trace sa @ Http PutPause # b \<and> (\<forall>e\<in>set b. quiet e)"
    using assms tk
    by (cases rt; cases "http w (tick sa) PutPause")
      (auto simp: pause_spotify_playback_def prog_defs split: if_splits)
  then show ?thesis using a by auto
qed

text \<open>The rest of the skip branch, after the pause has been restored or left alone.\<close>

lemma branch_tail_quiet:
  "emits quiet
     (andthen (if enable_restart_pattern cfg then track_pattern cfg w d else ret ()) (
      andthen (sleep 5) (andthen (print_msg MsgCheckingNext) (ret Next_iteration))))"
  by (intro emits_intros emits_track_pattern) simp_all


lemma pause_any: "emits (\<lambda>e. True) (pause_spotify_playback w)"
  by (rule emits_pause_spotify_playback) simp_all

lemma skip_branch_unfold:
  assumes "is_spotify_paused w (s\<lparr>trace := trace s @ [Print (MsgSkipping d)]\<rparr>) = (Inr wp, s1)"
  shows "skip_branch cfg w d s =
     andthen (skip_current_track w) (
     andthen (if wp then andthen (sleep 1) (pause_spotify_playback w) else ret ()) (
     andthen (if enable_restart_pattern cfg then track_pattern cfg w d else ret ()) (
     andthen (sleep 5) (andthen (print_msg MsgCheckingNext) (ret Next_iteration))))) s1"
  using assms
  by (simp add: skip_branch_def bnd_def andthen_def print_msg_def emit_def modify_def)

text \<open>
  Claim C8. In the skip branch the pause state \<open>was_paused\<close> is read right before the
  skip. When playback was not paused, the branch sends no pause command, whatever else
  happens in it. When playback was paused, no pause command is sent if the skip call
  raises; and when the skip call and the pause call return, the branch sends exactly one
  pause command, after the skip request and after the wait of one second, and exactly one
  skip request.
\<close>

theorem repause_iff_was_paused:
  assumes "is_spotify_paused w (s\<lparr>trace := trace s @ [Print (MsgSkipping d)]\<rparr>)
      = (Inr was_paused, s1)"
  shows "(\<not> was_paused \<longrightarrow>
        \<not> list_ex is_pause (new_events s (snd (skip_branch cfg w d s))))
    \<and> (was_paused \<longrightarrow> (\<forall>e. fst (skip_current_track w s1) = Inl e \<longrightarrow>
        \<not> list_ex is_pause (new_events s (snd (skip_branch cfg w d s)))))
    \<and> (was_paused \<longrightarrow> (\<forall>s2. skip_current_track w s1 = (Inr (), s2)
          \<and> fst (pause_spotify_playback w (s2\<lparr>trace := trace s2 @ [Sleep 1]\<rparr>)) = Inr ()
        \<longrightarrow> (\<exists>pre mid post. new_events s (snd (skip_branch cfg w d s))
               = pre @ Http PostNext # mid @ Http PutPause # post
             \<and> Sleep 1 \<in> set mid
             \<and> \<not> list_ex is_pause (pre @ mid @ post)
             \<and> \<not> list_ex is_skip (pre @ mid @ post))))"
proof (intro conjI impI allI)
  let ?s0 = "s\<lparr>trace := trace s @ [Print (MsgSkipping d)]\<rparr>"
  let ?tail = "andthen (if enable_restart_pattern cfg then track_pattern cfg w d else ret ()) (
     andthen (sleep 5) (andthen (print_msg MsgCheckingNext) (ret Next_iteration)))"
  from emitsD[OF paused_quiet assms] obtain e1 where
    e1: "trace s1 = trace s @ Print (MsgSkipping d) # e1" "\<forall>e\<in>set e1. quiet e" by auto
  have tailq: "emits (\<lambda>e. \<not> is_pause e) ?tail"
    by (rule emits_weaken[OF branch_tail_quiet]) simp
  {
    assume np: "\<not> was_paused"
    have "emits (\<lambda>e. \<not> is_pause e)
        (andthen (skip_current_track w) (andthen (ret ()) ?tail))"
      by (intro emits_andthen skip_no_pause emits_ret tailq)
    then obtain evs where "trace (snd (skip_branch cfg w d s)) = trace s1 @ evs"
      "\<forall>e\<in>set evs. \<not> is_pause e"
      using skip_branch_unfold[OF assms, of cfg] np unfolding emits_def by auto
    then have "new_events s (snd (skip_branch cfg w d s)) = Print (MsgSkipping d) # e1 @ evs"
      "\<forall>e\<in>set (Print (MsgSkipping d) # e1 @ evs). \<not> is_pause e"
      using e1 by (auto intro: new_events_append)
    then show "\<not> list_ex is_pause (new_events s (snd (skip_branch cfg w d s)))"
      by (simp add: list_ex_iff)
  }
  {
    fix e
    assume wp: "was_paused" and sk: "fst (skip_current_track w s1) = Inl e"
    obtain s2 where sk2: "skip_current_track w s1 = (Inl e, s2)"
      using sk by (cases "skip_current_track w s1") auto
    from emitsD[OF skip_no_pause sk2] obtain evs where
      "trace s2 = trace s1 @ evs" "\<forall>e\<in>set evs. \<not> is_pause e" by blast
    moreover have "snd (skip_branch cfg w d s) = s2"
      using skip_branch_unfold[OF assms, of cfg] sk2 by (simp add: andthen_def bnd_def)
    ultimately have "new_events s (snd (skip_branch cfg w d s)) = Print (MsgSkipping d) # e1 @ evs"
      "\<forall>e\<in>set (Print (MsgSkipping d) # e1 @ evs). \<not> is_pause e"
      using e1 by (auto intro: new_events_append)
    then show "\<not> list_ex is_pause (new_events s (snd (skip_branch cfg w d s)))"
      by (simp add: list_ex_iff)
  }
  {
    fix s2
    assume wp: "was_paused"
      and h: "skip_current_track w s1 = (Inr (), s2)
        \<and> fst (pause_spotify_playback w (s2\<lparr>trace := trace s2 @ [Sleep 1]\<rparr>)) = Inr ()"
    let ?s2' = "s2\<lparr>trace := trace s2 @ [Sleep 1]\<rparr>"
    obtain s3 where pa: "pause_spotify_playback w ?s2' = (Inr (), s3)"
      using h by (cases "pause_spotify_playback w ?s2'") auto
    from skip_call_events[of w s1 "()" s2] h obtain a b where
      ab: "trace s2 = trace s1 @ a @ Http PostNext # b" "\<forall>e\<in>set (a @ b). quiet e" by blast
    from pause_call_events[OF pa] obtain a' b' where
      ab': "trace s3 = trace ?s2' @ a' @ Http PutPause # b'" "\<forall>e\<in>set (a' @ b'). quiet e"
      by blast
    have "skip_branch cfg w d s = ?tail s3"
      using skip_branch_unfold[OF assms, of cfg] wp h pa
      by (simp add: andthen_def bnd_def sleep_def emit_def modify_def)
    moreover obtain e4 where "trace (snd (?tail s3)) = trace s3 @ e4" "\<forall>e\<in>set e4. quiet e"
      using branch_tail_quiet[of cfg w d] unfolding emits_def by blast
    ultimately have tr: "trace (snd (skip_branch cfg w d s)) = trace s3 @ e4"
      and e4: "\<forall>e\<in>set e4. quiet e" by simp_all
    let ?pre = "Print (MsgSkipping d) # e1 @ a"
    let ?mid = "b @ Sleep 1 # a'"
    let ?post = "b' @ e4"
    have "trace (snd (skip_branch cfg w d s))
        = trace s @ (?pre @ Http PostNext # ?mid @ Http PutPause # ?post)"
      using tr ab ab' e1 by simp
    then have ne: "new_events s (snd (skip_branch cfg w d s))
        = ?pre @ Http PostNext # ?mid @ Http PutPause # ?post"
      by (rule new_events_append)
    have q: "\<forall>e\<in>set (?pre @ ?mid @ ?post). quiet e"
      using e1 ab ab' e4 by auto
    show "\<exists>pre mid post. new_events s (snd (skip_branch cfg w d s))
               = pre @ Http PostNext # mid @ Http PutPause # post
             \<and> Sleep 1 \<in> set mid
             \<and> \<not> list_ex is_pause (pre @ mid @ post)
             \<and> \<not> list_ex is_skip (pre @ mid @ post)"
      using ne q
      by (intro exI[of _ ?pre] exI[of _ ?mid] exI[of _ ?post]) (simp add: list_ex_iff)
  }
qed

text \<open>
  The decision on a timezone-aware timestamp: no skip is sent when it is not after
  \<open>now - window\<close>, where \<open>now\<close> is the second reading of the clock; a skip is sent when it
  is after \<open>now - window\<close> and the branch is not cut short by an exception.
\<close>

lemma skip_branch_sends_skip:
  assumes "fst (skip_branch cfg w d s) = Inr f"
  shows "list_ex is_skip (new_events s (snd (skip_branch cfg w d s)))"
proof -
  let ?s0 = "s\<lparr>trace := trace s @ [Print (MsgSkipping d)]\<rparr>"
  obtain rp s1 where p: "is_spotify_paused w ?s0 = (rp, s1)"
    by (cases "is_spotify_paused w ?s0")
  obtain wp where rp: "rp = Inr wp"
    using assms p
    by (cases rp) (auto simp: skip_branch_def bnd_def andthen_def print_msg_def emit_def
        modify_def)
  note p' = p[unfolded rp]
  from emitsD[OF paused_quiet p'] obtain e1 where
    e1: "trace s1 = trace s @ Print (MsgSkipping d) # e1" by auto
  obtain rs s2 where sk: "skip_current_track w s1 = (rs, s2)"
    by (cases "skip_current_track w s1")
  have rs: "rs = Inr ()"
    using assms sk skip_branch_unfold[OF p', of cfg]
    by (cases rs) (auto simp: bnd_def andthen_def)
  from skip_call_events[OF sk[unfolded rs]] obtain a b where
    ab: "trace s2 = trace s1 @ a @ Http PostNext # b" by blast
  let ?rest = "andthen (if wp then andthen (sleep 1) (pause_spotify_playback w) else ret ()) (
     andthen (if enable_restart_pattern cfg then track_pattern cfg w d else ret ()) (
     andthen (sleep 5) (andthen (print_msg MsgCheckingNext) (ret Next_iteration))))"
  have "emits (\<lambda>e. True) ?rest"
    by (intro emits_intros pause_any emits_weaken[OF emits_track_pattern]) simp_all
  then obtain e3 where "trace (snd (?rest s2)) = trace s2 @ e3"
    unfolding emits_def by blast
  moreover have "skip_branch cfg w d s = ?rest s2"
    using skip_branch_unfold[OF p', of cfg] sk rs by (simp add: andthen_def bnd_def)
  ultimately have "trace (snd (skip_branch cfg w d s))
      = trace s @ (Print (MsgSkipping d) # e1 @ a @ Http PostNext # b @ e3)"
    using ab e1 by simp
  then have "new_events s (snd (skip_branch cfg w d s))
      = Print (MsgSkipping d) # e1 @ a @ Http PostNext # b @ e3"
    by (rule new_events_append)
  then show ?thesis by (simp add: list_ex_iff)
qed

lemma skip_decision_aware:
  "(lp \<le> clock w (Suc (tick s)) - skip_window_days cfg * us_per_day \<longrightarrow>
      \<not> list_ex is_skip (new_events s (snd (decide cfg w (Some (Aware lp)) s))))
   \<and> (clock w (Suc (tick s)) - skip_window_days cfg * us_per_day < lp
       \<and> fst (decide cfg w (Some (Aware lp)) s) = Inr f \<longrightarrow>
      list_ex is_skip (new_events s (snd (decide cfg w (Some (Aware lp)) s))))"
proof (intro conjI impI)
  let ?d = "td_days (clock w (tick s) - lp)"
  let ?s1 = "s\<lparr>trace := trace s @ [Print (MsgLastScrobble (Aware lp) ?d)],
     tick := Suc (Suc (tick s))\<rparr>"
  {
    assume "lp \<le> clock w (Suc (tick s)) - skip_window_days cfg * us_per_day"
    then have "snd (decide cfg w (Some (Aware lp)) s)
        = ?s1\<lparr>trace := trace s @ [Print (MsgLastScrobble (Aware lp) ?d), Print MsgOlder]\<rparr>"
      by (simp add: decide_def prog_defs)
    then show "\<not> list_ex is_skip (new_events s (snd (decide cfg w (Some (Aware lp)) s)))"
      by (simp add: new_events_def)
  }
  {
    assume a: "clock w (Suc (tick s)) - skip_window_days cfg * us_per_day < lp
       \<and> fst (decide cfg w (Some (Aware lp)) s) = Inr f"
    then have "clock w (Suc (tick s)) - skip_window_days cfg * us_per_day < lp" ..
    then have eq: "decide cfg w (Some (Aware lp)) s = skip_branch cfg w ?d ?s1"
      by (simp add: decide_def prog_defs)
    with a have "fst (skip_branch cfg w ?d ?s1) = Inr f" by simp
    from skip_branch_sends_skip[OF this]
    have "list_ex is_skip (new_events ?s1 (snd (skip_branch cfg w ?d ?s1)))" .
    moreover obtain evs where "trace (snd (skip_branch cfg w ?d ?s1)) = trace ?s1 @ evs"
    proof -
      have "emits (\<lambda>e. True) (skip_branch cfg w ?d)"
        unfolding skip_branch_def
        by (intro emits_intros pause_any emits_weaken[OF emits_track_pattern]
            emits_weaken[OF paused_quiet] emits_skip_current_track) simp_all
      then show ?thesis using that unfolding emits_def by blast
    qed
    ultimately show "list_ex is_skip (new_events s (snd (decide cfg w (Some (Aware lp)) s)))"
      unfolding eq by (auto simp: new_events_def list_ex_iff)
  }
qed

section \<open>Decision Loop: the outer handler\<close>

text \<open>
  When the body of the loop raises an exception other than \<open>KeyboardInterrupt\<close> and the
  poll interval is one that \<^verbatim>\<open>time.sleep\<close> accepts, the handler logs the exception and
  sleeps the poll interval, the standard pause after the \<^verbatim>\<open>try\<close> statement sleeps it a
  second time, and the loop goes on with the next iteration.
\<close>

lemma unexpected_exception_two_sleeps:
  assumes "loop_body cfg w s = (Inl e, s1)" "e \<noteq> KeyboardInterrupt"
    "0 \<le> poll_interval_seconds cfg"
  shows "iteration cfg w s = (Inr True, s1\<lparr>trace := trace s1 @
       [Print (MsgUnexpected e), Sleep (poll_interval_seconds cfg),
        Sleep (poll_interval_seconds cfg)]\<rparr>)
    \<and> iterations (Suc n) cfg w s = iterations n cfg w (s1\<lparr>trace := trace s1 @
       [Print (MsgUnexpected e), Sleep (poll_interval_seconds cfg),
        Sleep (poll_interval_seconds cfg)]\<rparr>)"
  using handler_result[OF assms] by (simp add: bnd_def)

text \<open>
  With a negative poll interval the sleep of the handler raises \<open>ValueError\<close> itself,
  outside any \<^verbatim>\<open>try\<close>, and the exception leaves the loop.
\<close>

lemma negative_poll_interval_leaves_loop:
  "fst (iteration (sample_config\<lparr>poll_interval_seconds := - 1\<rparr>) offline_world
         (initial_sys 0)) = Inl ValueError"
  by (simp add: loop_defs eval_defs prog_defs sample_defs)

text \<open>
  Claim C6 fails on the code. Without network the token exchange fails in transport; the
  handler logs the exception and the loop goes on, as claimed, but the iteration sleeps
  the poll interval twice, not once: the handler sleeps and does not \<^verbatim>\<open>continue\<close>, so the
  standard pause of line 670 follows.
\<close>

theorem unexpected_exception_sleeps_twice:
  "fst (iteration sample_config offline_world (initial_sys 0)) = Inr True
   \<and> trace (snd (iteration sample_config offline_world (initial_sys 0)))
       = [Http (GetRemote (remote_control_url sample_config)),
          Print (MsgRemoteFailed RequestException), Http PostToken,
          Print (MsgUnexpected RequestException), Sleep 120, Sleep 120]"
  by (simp add: loop_defs eval_defs prog_defs sample_defs)

theorem same_track_not_evaluated_witness:
  "\<not> skipping_paused seen_sys
   \<and> is_skipping_enabled sample_config (sample_world no_scrobble_reply True) seen_sys
       = (Inr True, after_gate seen_sys)
   \<and> get_current_track (sample_world no_scrobble_reply True) (after_gate seen_sys)
       = (Inr (Some sample_track), after_observe seen_sys)
   \<and> track_id sample_track = last_checked_track_id seen_sys
   \<and> 0 \<le> poll_interval_seconds sample_config
   \<and> iteration sample_config (sample_world no_scrobble_reply True) seen_sys
       = (Inr True, (after_observe seen_sys)\<lparr>trace := trace (after_observe seen_sys) @
           [Print (MsgSameSong (track_name sample_track)),
            Sleep (poll_interval_seconds sample_config)]\<rparr>)
   \<and> \<not> list_ex is_lookup (new_events seen_sys
         (snd (iteration sample_config (sample_world no_scrobble_reply True) seen_sys)))"
proof -
  let ?w = "sample_world no_scrobble_reply True"
  have a: "\<not> skipping_paused seen_sys" by (simp add: sample_defs)
  have b: "is_skipping_enabled sample_config ?w seen_sys = (Inr True, after_gate seen_sys)"
    by (simp add: is_skipping_enabled_def prog_defs sample_defs sample_gate_line)
  have c: "get_current_track ?w (after_gate seen_sys)
      = (Inr (Some sample_track), after_observe seen_sys)"
    by (simp add: eval_defs prog_defs sample_defs)
  have d: "track_id sample_track = last_checked_track_id seen_sys"
    by (simp add: sample_defs)
  have e: "0 \<le> poll_interval_seconds sample_config" by (simp add: sample_defs)
  from same_track_not_evaluated[OF a b c d] a b c d e show ?thesis by blast
qed

theorem absent_history_never_skips_witness:
  "http offline_world (tick cached_sys) (GetTrackScrobbles (JStr ''Band'') (JStr ''Song''))
     = Inl RequestException
   \<and> fst (get_last_play_date offline_world (JStr ''Band'') (JStr ''Song'') cached_sys)
       = Inr None
   \<and> http (sample_world (scrobble_list_reply (JStr ''253402300800'')) True) (tick cached_sys)
         (GetTrackScrobbles (JStr ''Band'') (JStr ''Song''))
       = Inr (response_with 200 (scrobble_list_json (JStr ''253402300800'')))
   \<and> status_code (response_with 200 (scrobble_list_json (JStr ''253402300800''))) = 200
   \<and> answer_scrobbles (response_with 200 (scrobble_list_json (JStr ''253402300800'')))
       = Inr (JArr [scrobble_record (JStr ''253402300800'')])
   \<and> scrobble_uts (JArr [scrobble_record (JStr ''253402300800'')])
       = Inr (JStr ''253402300800'')
   \<and> py_int (JStr ''253402300800'') = Inr 253402300800
   \<and> timestamp_check (sample_world (scrobble_list_reply (JStr ''253402300800'')) True)
         253402300800 = Some ValueError
   \<and> fst (get_last_play_date (sample_world (scrobble_list_reply (JStr ''253402300800'')) True)
         (JStr ''Band'') (JStr ''Song'') cached_sys) = Inr None
   \<and> http (sample_world (scrobble_object_reply (JStr (CHR 0x1F # ''1699136000''))) True)
         (tick cached_sys) (GetTrackScrobbles (JStr ''Band'') (JStr ''Song''))
       = Inr (response_with 200 (scrobble_object_json (JStr (CHR 0x1F # ''1699136000''))))
   \<and> answer_scrobbles (response_with 200
         (scrobble_object_json (JStr (CHR 0x1F # ''1699136000''))))
       = Inr (scrobble_record (JStr (CHR 0x1F # ''1699136000'')))
   \<and> scrobble_uts (scrobble_record (JStr (CHR 0x1F # ''1699136000'')))
       = Inr (JStr (CHR 0x1F # ''1699136000''))
   \<and> py_int (JStr (CHR 0x1F # ''1699136000'')) = Inl ValueError
   \<and> fst (get_last_play_date
         (sample_world (scrobble_object_reply (JStr (CHR 0x1F # ''1699136000''))) True)
         (JStr ''Band'') (JStr ''Song'') cached_sys) = Inr None
   \<and> \<not> skipping_paused cached_sys
   \<and> is_skipping_enabled sample_config (sample_world no_scrobble_reply True) cached_sys
       = (Inr True, after_gate cached_sys)
   \<and> get_current_track (sample_world no_scrobble_reply True) (after_gate cached_sys)
       = (Inr (Some sample_track), after_observe cached_sys)
   \<and> track_id sample_track \<noteq> last_checked_track_id (after_observe cached_sys)
   \<and> note_new_track (sample_world no_scrobble_reply True) sample_track
         (after_observe cached_sys) = (Inr (), after_note cached_sys)
   \<and> temp_pause_track_id (after_note cached_sys) \<noteq> track_id sample_track
   \<and> get_last_play_date (sample_world no_scrobble_reply True) (track_artist sample_track)
         (track_name sample_track) (after_note cached_sys) = (Inr None, after_lookup cached_sys)
   \<and> 0 \<le> poll_interval_seconds sample_config
   \<and> \<not> list_ex is_skip (new_events cached_sys
         (snd (iteration sample_config (sample_world no_scrobble_reply True) cached_sys)))
   \<and> iteration sample_config (sample_world no_scrobble_reply True) cached_sys
       = (Inr True, (after_lookup cached_sys)\<lparr>trace := trace (after_lookup cached_sys) @
           [Print MsgNoScrobble, Sleep (poll_interval_seconds sample_config)]\<rparr>)
   \<and> is_skipping_enabled sample_config
         (sample_world (scrobble_list_reply (JArr [JNum 1])) True) cached_sys
       = (Inr True, after_gate cached_sys)
   \<and> get_current_track (sample_world (scrobble_list_reply (JArr [JNum 1])) True)
         (after_gate cached_sys) = (Inr (Some sample_track), after_observe cached_sys)
   \<and> note_new_track (sample_world (scrobble_list_reply (JArr [JNum 1])) True) sample_track
         (after_observe cached_sys) = (Inr (), after_note cached_sys)
   \<and> get_last_play_date (sample_world (scrobble_list_reply (JArr [JNum 1])) True)
         (track_artist sample_track) (track_name sample_track) (after_note cached_sys)
       = (Inl TypeError, after_lookup cached_sys)
   \<and> \<not> list_ex is_skip (new_events cached_sys (snd (iteration sample_config
         (sample_world (scrobble_list_reply (JArr [JNum 1])) True) cached_sys)))"
proof -
  let ?a = "JStr ''Band''" and ?t = "JStr ''Song''"
  have t: "http offline_world (tick cached_sys) (GetTrackScrobbles ?a ?t)
      = Inl RequestException"
    by (simp add: sample_defs)
  from t absent_history_never_skips[of offline_world cached_sys ?a ?t]
  have u: "fst (get_last_play_date offline_world ?a ?t cached_sys) = Inr None"
    by blast
  let ?u1 = "JStr ''253402300800''"
  let ?w1 = "sample_world (scrobble_list_reply ?u1) True"
  let ?r1 = "response_with 200 (scrobble_list_json ?u1)"
  have r1: "http ?w1 (tick cached_sys) (GetTrackScrobbles ?a ?t) = Inr ?r1"
    by (simp add: sample_world_def scrobble_list_reply_def reply_def)
  have r2: "status_code ?r1 = 200" by (simp add: response_with_def)
  have r3: "answer_scrobbles ?r1 = Inr (JArr [scrobble_record ?u1])"
    by (simp add: answer_scrobbles_def response_with_def scrobble_list_json_def json_of_def
        or_empty_def fmlookup_of_list)
  have r4: "scrobble_uts (JArr [scrobble_record ?u1]) = Inr ?u1"
    by (simp add: record_uts_def scrobble_record_def fmlookup_of_list)
  have r5: "py_int ?u1 = Inr 253402300800"
    by (simp add: int_of_string_def int_strip_def is_int_space_def is_digit_def digit_val_def
        max_str_digits_def)
  have r6: "timestamp_check ?w1 253402300800 = Some ValueError"
    by (simp add: timestamp_check_def sample_world_def sample_platform_def datetime_min_ts_def
        datetime_max_ts_def)
  from r1 r2 r3 r4 r5 r6 absent_history_never_skips[of ?w1 cached_sys ?a ?t]
  have r7: "fst (get_last_play_date ?w1 ?a ?t cached_sys) = Inr None"
    by blast
  let ?u2 = "JStr (CHR 0x1F # ''1699136000'')"
  let ?w2 = "sample_world (scrobble_object_reply ?u2) True"
  let ?r2 = "response_with 200 (scrobble_object_json ?u2)"
  have q1: "http ?w2 (tick cached_sys) (GetTrackScrobbles ?a ?t) = Inr ?r2"
    by (simp add: sample_world_def scrobble_object_reply_def reply_def)
  have q2: "status_code ?r2 = 200" by (simp add: response_with_def)
  have q3: "answer_scrobbles ?r2 = Inr (scrobble_record ?u2)"
    by (simp add: answer_scrobbles_def response_with_def scrobble_object_json_def json_of_def
        or_empty_def fmlookup_of_list)
  have q4: "scrobble_uts (scrobble_record ?u2) = Inr ?u2"
    by (simp add: record_uts_def scrobble_record_def fmlookup_of_list)
  have q5: "py_int ?u2 = Inl ValueError"
    by (simp add: int_of_string_def int_strip_def is_int_space_def is_digit_def digit_val_def
        max_str_digits_def)
  from q1 q2 q3 q4 q5 absent_history_never_skips[of ?w2 cached_sys ?a ?t]
  have q6: "fst (get_last_play_date ?w2 ?a ?t cached_sys) = Inr None"
    by blast
  let ?w = "sample_world no_scrobble_reply True"
  have a: "\<not> skipping_paused cached_sys" by (simp add: sample_defs)
  have b: "is_skipping_enabled sample_config ?w cached_sys = (Inr True, after_gate cached_sys)"
    by (simp add: is_skipping_enabled_def prog_defs sample_defs sample_gate_line)
  have c: "get_current_track ?w (after_gate cached_sys)
      = (Inr (Some sample_track), after_observe cached_sys)"
    by (simp add: eval_defs prog_defs sample_defs)
  have d: "track_id sample_track \<noteq> last_checked_track_id (after_observe cached_sys)"
    by (simp add: sample_defs)
  have e: "note_new_track ?w sample_track (after_observe cached_sys)
      = (Inr (), after_note cached_sys)"
    by (simp add: note_new_track_def prog_defs sample_defs)
  have f: "temp_pause_track_id (after_note cached_sys) \<noteq> track_id sample_track"
    by (simp add: sample_defs)
  have g: "get_last_play_date ?w (track_artist sample_track) (track_name sample_track)
      (after_note cached_sys) = (Inr None, after_lookup cached_sys)"
    by (simp add: history_defs prog_defs sample_defs json_of_def or_empty_def
        fmlookup_of_list)
  have h: "0 \<le> poll_interval_seconds sample_config" by (simp add: sample_defs)
  have g': "\<forall>dt. (Inr None :: exn + datetime option) \<noteq> Inr (Some dt)" by simp
  from absent_history_never_skips[of ?w cached_sys ?a ?t]
  have "\<forall>cfg tr s0 s1 s2 s3 s4 res.
        \<not> skipping_paused s0 \<and> is_skipping_enabled cfg ?w s0 = (Inr True, s1)
        \<and> get_current_track ?w s1 = (Inr (Some tr), s2)
        \<and> track_id tr \<noteq> last_checked_track_id s2
        \<and> note_new_track ?w tr s2 = (Inr (), s3)
        \<and> temp_pause_track_id s3 \<noteq> track_id tr
        \<and> get_last_play_date ?w (track_artist tr) (track_name tr) s3 = (res, s4)
        \<and> (\<forall>dt. res \<noteq> Inr (Some dt)) \<longrightarrow>
        \<not> list_ex is_skip (new_events s0 (snd (iteration cfg ?w s0)))
        \<and> (res = Inr None \<and> 0 \<le> poll_interval_seconds cfg \<longrightarrow>
             iteration cfg ?w s0 = (Inr True, s4\<lparr>trace := trace s4 @
               [Print MsgNoScrobble, Sleep (poll_interval_seconds cfg)]\<rparr>))"
    by (elim conjE)
  from this[rule_format, of cached_sys sample_config "after_gate cached_sys" sample_track
      "after_observe cached_sys" "after_note cached_sys" "Inr None" "after_lookup cached_sys"]
    a b c d e f g g' h
  have i: "\<not> list_ex is_skip (new_events cached_sys (snd (iteration sample_config ?w cached_sys)))
      \<and> iteration sample_config ?w cached_sys
        = (Inr True, (after_lookup cached_sys)\<lparr>trace := trace (after_lookup cached_sys) @
           [Print MsgNoScrobble, Sleep (poll_interval_seconds sample_config)]\<rparr>)"
    by blast
  let ?w3 = "sample_world (scrobble_list_reply (JArr [JNum 1])) True"
  have b3: "is_skipping_enabled sample_config ?w3 cached_sys
      = (Inr True, after_gate cached_sys)"
    by (simp add: is_skipping_enabled_def prog_defs sample_defs sample_gate_line)
  have c3: "get_current_track ?w3 (after_gate cached_sys)
      = (Inr (Some sample_track), after_observe cached_sys)"
    by (simp add: eval_defs prog_defs sample_defs)
  have e3: "note_new_track ?w3 sample_track (after_observe cached_sys)
      = (Inr (), after_note cached_sys)"
    by (simp add: note_new_track_def prog_defs sample_defs)
  have g3: "get_last_play_date ?w3 (track_artist sample_track) (track_name sample_track)
      (after_note cached_sys) = (Inl TypeError, after_lookup cached_sys)"
    by (simp add: history_defs prog_defs sample_defs json_of_def or_empty_def
        fmlookup_of_list)
  have g3': "\<forall>dt. (Inl TypeError :: exn + datetime option) \<noteq> Inr (Some dt)" by simp
  from absent_history_never_skips[of ?w3 cached_sys ?a ?t]
  have "\<forall>cfg tr s0 s1 s2 s3 s4 res.
        \<not> skipping_paused s0 \<and> is_skipping_enabled cfg ?w3 s0 = (Inr True, s1)
        \<and> get_current_track ?w3 s1 = (Inr (Some tr), s2)
        \<and> track_id tr \<noteq> last_checked_track_id s2
        \<and> note_new_track ?w3 tr s2 = (Inr (), s3)
        \<and> temp_pause_track_id s3 \<noteq> track_id tr
        \<and> get_last_play_date ?w3 (track_artist tr) (track_name tr) s3 = (res, s4)
        \<and> (\<forall>dt. res \<noteq> Inr (Some dt)) \<longrightarrow>
        \<not> list_ex is_skip (new_events s0 (snd (iteration cfg ?w3 s0)))
        \<and> (res = Inr None \<and> 0 \<le> poll_interval_seconds cfg \<longrightarrow>
             iteration cfg ?w3 s0 = (Inr True, s4\<lparr>trace := trace s4 @
               [Print MsgNoScrobble, Sleep (poll_interval_seconds cfg)]\<rparr>))"
    by (elim conjE)
  from this[rule_format, of cached_sys sample_config "after_gate cached_sys" sample_track
      "after_observe cached_sys" "after_note cached_sys" "Inl TypeError"
      "after_lookup cached_sys"]
    a b3 c3 d e3 f g3 g3'
  have j: "\<not> list_ex is_skip (new_events cached_sys
      (snd (iteration sample_config ?w3 cached_sys)))"
    by blast
  show ?thesis
    apply (intro conjI)
    using t u r1 r2 r3 r4 r5 r6 r7 q1 q3 q4 q5 q6 a b c d e f g h i b3 c3 e3 g3 j
    by blast+
qed

theorem repause_iff_was_paused_witness:
  "is_spotify_paused (sample_world no_scrobble_reply True)
       (cached_sys\<lparr>trace := trace cached_sys @ [Print (MsgSkipping 10)]\<rparr>)
     = (Inr False, cached_sys\<lparr>tick := 2, trace := [Print (MsgSkipping 10), Http GetPlayer]\<rparr>)
   \<and> \<not> list_ex is_pause (new_events cached_sys
         (snd (skip_branch sample_config (sample_world no_scrobble_reply True) 10 cached_sys)))
   \<and> is_spotify_paused (sample_world no_scrobble_reply False)
       (cached_sys\<lparr>trace := trace cached_sys @ [Print (MsgSkipping 10)]\<rparr>)
     = (Inr True, cached_sys\<lparr>tick := 2, trace := [Print (MsgSkipping 10), Http GetPlayer]\<rparr>)
   \<and> skip_current_track (sample_world no_scrobble_reply False)
       (cached_sys\<lparr>tick := 2, trace := [Print (MsgSkipping 10), Http GetPlayer]\<rparr>)
     = (Inr (), cached_sys\<lparr>tick := 4,
          trace := [Print (MsgSkipping 10), Http GetPlayer, Http PostNext]\<rparr>)
   \<and> fst (pause_spotify_playback (sample_world no_scrobble_reply False)
       (cached_sys\<lparr>tick := 4,
          trace := [Print (MsgSkipping 10), Http GetPlayer, Http PostNext, Sleep 1]\<rparr>))
     = Inr ()
   \<and> (\<exists>pre mid post. new_events cached_sys
         (snd (skip_branch sample_config (sample_world no_scrobble_reply False) 10 cached_sys))
          = pre @ Http PostNext # mid @ Http PutPause # post
        \<and> Sleep 1 \<in> set mid
        \<and> \<not> list_ex is_pause (pre @ mid @ post)
        \<and> \<not> list_ex is_skip (pre @ mid @ post))"
proof -
  let ?playing = "sample_world no_scrobble_reply True"
  let ?paused = "sample_world no_scrobble_reply False"
  let ?s0 = "cached_sys\<lparr>trace := trace cached_sys @ [Print (MsgSkipping 10)]\<rparr>"
  let ?s1 = "cached_sys\<lparr>tick := 2, trace := [Print (MsgSkipping 10), Http GetPlayer]\<rparr>"
  let ?s2 = "cached_sys\<lparr>tick := 4,
     trace := [Print (MsgSkipping 10), Http GetPlayer, Http PostNext]\<rparr>"
  have a: "is_spotify_paused ?playing ?s0 = (Inr False, ?s1)"
    by (simp add: loop_defs eval_defs prog_defs sample_defs)
  have b: "is_spotify_paused ?paused ?s0 = (Inr True, ?s1)"
    by (simp add: loop_defs eval_defs prog_defs sample_defs)
  have c: "skip_current_track ?paused ?s1 = (Inr (), ?s2)"
    by (simp add: loop_defs eval_defs prog_defs sample_defs)
  have d: "fst (pause_spotify_playback ?paused (?s2\<lparr>trace := trace ?s2 @ [Sleep 1]\<rparr>))
      = Inr ()"
    by (simp add: loop_defs eval_defs prog_defs sample_defs)
  have d': "fst (pause_spotify_playback ?paused (cached_sys\<lparr>tick := 4,
      trace := [Print (MsgSkipping 10), Http GetPlayer, Http PostNext, Sleep 1]\<rparr>)) = Inr ()"
    using d by (simp add: sample_defs)
  from repause_iff_was_paused[OF a, of sample_config]
  have e: "\<not> list_ex is_pause (new_events cached_sys
      (snd (skip_branch sample_config ?playing 10 cached_sys)))"
    by blast
  from repause_iff_was_paused[OF b, of sample_config] c d
  have f: "\<exists>pre mid post. new_events cached_sys
         (snd (skip_branch sample_config ?paused 10 cached_sys))
          = pre @ Http PostNext # mid @ Http PutPause # post
        \<and> Sleep 1 \<in> set mid
        \<and> \<not> list_ex is_pause (pre @ mid @ post)
        \<and> \<not> list_ex is_skip (pre @ mid @ post)"
    by blast
  from a b c d' e f show ?thesis by blast
qed

end
